theory Spec2Isabelle
  imports Main "HOL-Library.Sublist"
begin

section \<open>Go values shared by the embedded functions\<close>

text \<open>
  A Go \<open>string\<close> is a byte sequence, here a \<open>string\<close> (a list of \<open>char\<close>). A Go
  \<open>error\<close> value is represented by its message; \<open>nil\<close> is \<open>None\<close>. A Go \<open>int\<close>
  is modelled as \<open>int\<close>: the only arithmetic on it here is counting elements of slices
  held in memory and multiplying such a count by 258, which stays far below \<open>2^63\<close>.
\<close>

type_synonym go_error = string

text \<open>
  A call either returns or panics (a nil dereference, an index out of range).
\<close>

datatype 'a outcome = Return 'a | Panic string

section \<open>The functions of package \<open>strings\<close> the sources call\<close>

text \<open>
  \<open>strings.Index(s, sep)\<close>: the position of the first occurrence of \<open>sep\<close> in
  \<open>s\<close>, \<open>None\<close> where Go returns \<open>-1\<close>.
\<close>

fun strings_Index :: "string \<Rightarrow> string \<Rightarrow> nat option" where
  "strings_Index [] sep = (if sep = [] then Some 0 else None)"
| "strings_Index (c # cs) sep =
     (if prefix sep (c # cs) then Some 0 else map_option Suc (strings_Index cs sep))"

definition strings_Contains :: "string \<Rightarrow> string \<Rightarrow> bool" where
  "strings_Contains s sub = (strings_Index s sub \<noteq> None)"

definition strings_HasPrefix :: "string \<Rightarrow> string \<Rightarrow> bool" where
  "strings_HasPrefix s p = prefix p s"

definition strings_HasSuffix :: "string \<Rightarrow> string \<Rightarrow> bool" where
  "strings_HasSuffix s suf = suffix suf s"

definition strings_TrimSuffix :: "string \<Rightarrow> string \<Rightarrow> string" where
  "strings_TrimSuffix s suf =
     (if strings_HasSuffix s suf then take (length s - length suf) s else s)"

lemma strings_Index_bound:
  "strings_Index s sep = Some m \<Longrightarrow> m + length sep \<le> length s"
proof (induction s arbitrary: m)
  case Nil
  then show ?case by (simp split: if_splits)
next
  case (Cons c cs)
  show ?case
  proof (cases "prefix sep (c # cs)")
    case True
    with Cons.prems have "m = 0" by simp
    from True have "length sep \<le> length (c # cs)" by (rule prefix_length_le)
    with \<open>m = 0\<close> show ?thesis by simp
  next
    case False
    with Cons.prems obtain k where k: "strings_Index cs sep = Some k" "m = Suc k"
      by auto
    from Cons.IH [OF k(1)] k(2) show ?thesis by simp
  qed
qed

text \<open>
  \<open>strings.Split(s, sep)\<close> for a separator that is not empty: cut at every
  occurrence of \<open>sep\<close>, left to right, the pieces without the separators. (With an
  empty separator Go cuts after every UTF-8 sequence; no call in the sources passes one,
  and the model cuts after every byte there.)
\<close>

function strings_Split :: "string \<Rightarrow> string \<Rightarrow> string list" where
  "strings_Split s sep =
     (if sep = [] then map (\<lambda>c. [c]) s
      else case strings_Index s sep of
             None \<Rightarrow> [s]
           | Some m \<Rightarrow> take m s # strings_Split (drop (m + length sep) s) sep)"
  by pat_completeness auto
termination
proof (relation "measure (\<lambda>(s, sep). length s)")
  show "wf (measure (\<lambda>(s, sep). length s))" by simp
next
  fix s sep :: string and m :: nat
  assume sep: "sep \<noteq> []" and idx: "strings_Index s sep = Some m"
  from sep have "0 < length sep" by simp
  with strings_Index_bound [OF idx] have "length s - (m + length sep) < length s"
    by arith
  then show "((drop (m + length sep) s, sep), (s, sep)) \<in> measure (\<lambda>(s, sep). length s)"
    by simp
qed

declare strings_Split.simps [simp del]

section \<open>The image response handler (relay/channel/gemini/adaptor.go)\<close>

text \<open>
  The types of package \<open>dto\<close> and the Gemini wire types are declared outside the
  files at hand; the records carry the fields the handler reads and writes. The error
  codes are those of package \<open>types\<close> that the files at hand name.
\<close>

datatype ErrorCode =
    ErrorCodeChannelModelMappedError
  | ErrorCodeInvalidApiType
  | ErrorCodeModelPriceError
  | ErrorCodeConvertRequestFailed
  | ErrorCodeJsonMarshalFailed
  | ErrorCodeDoRequestFailed
  | ErrorCodeBadResponse
  | ErrorCodeBadResponseBody
  | ErrorCodeReadResponseBodyFailed
  | ErrorCodeChannelResponseTimeExceeded

record NewAPIError =
  Err :: go_error
  errorCode :: ErrorCode

definition types_NewError :: "go_error \<Rightarrow> ErrorCode \<Rightarrow> NewAPIError" where
  "types_NewError e code = \<lparr>Err = e, errorCode = code\<rparr>"

record GeminiImagePrediction =
  BytesBase64Encoded :: string
  RaiFilteredReason :: string

record GeminiImageResponse =
  Predictions :: "GeminiImagePrediction list"

record ImageData =
  B64Json :: string

record ImageResponse =
  Created :: int
  Data :: "ImageData list"

record Usage =
  PromptTokens :: int
  CompletionTokens :: int
  TotalTokens :: int

text \<open>
  The upstream response: \<open>io.ReadAll(resp.Body)\<close> gives the bytes or a read error.
\<close>

record http_Response =
  StatusCode :: int
  Body :: "go_error + string"

text \<open>
  The part of \<open>c.Writer\<close> the handler touches: the content type in the header, the
  status that was sent (\<open>None\<close> while nothing was sent) and the body.
\<close>

record ResponseWriter =
  ContentType :: "string option"
  WrittenStatus :: "int option"
  Written :: string

text \<open>
  What the handler calls and the files at hand do not define: \<open>json.Unmarshal\<close> into a
  \<open>GeminiImageResponse\<close>, \<open>json.Marshal\<close> of the outgoing \<open>dto.ImageResponse\<close>,
  and \<open>common.GetTimestamp\<close>.
\<close>

record image_env =
  unmarshalImageResponse :: "string \<Rightarrow> go_error + GeminiImageResponse"
  marshalImageResponse :: "ImageResponse \<Rightarrow> go_error + string"
  GetTimestamp :: int

text \<open>
  The loop of lines 233-240: a prediction with a filter reason is skipped, any other is
  appended to \<open>openAIResponse.Data\<close>.
\<close>

fun append_predictions :: "ImageData list \<Rightarrow> GeminiImagePrediction list \<Rightarrow> ImageData list" where
  "append_predictions data [] = data"
| "append_predictions data (prediction # rest) =
     (if RaiFilteredReason prediction \<noteq> '''' then append_predictions data rest
      else append_predictions (data @ [\<lparr>B64Json = BytesBase64Encoded prediction\<rparr>]) rest)"

definition imageTokens :: int where
  "imageTokens = 258"

text \<open>
  Lines 247-249 on the writer of gin: the header is set; \<open>WriteHeader\<close> keeps a status
  code above zero and leaves the default 200 in place otherwise; \<open>Write\<close> then sends
  the status, unless one was sent before, and the body. Sending a status outside 100 to
  999 panics in package \<open>net/http\<close>.
\<close>

definition write_response :: "ResponseWriter \<Rightarrow> int \<Rightarrow> string \<Rightarrow> ResponseWriter outcome" where
  "write_response w code jsonResponse =
     (let w1 = w\<lparr>ContentType := Some ''application/json''\<rparr>
      in case WrittenStatus w1 of
           Some sent \<Rightarrow> Return (w1\<lparr>Written := Written w1 @ jsonResponse\<rparr>)
         | None \<Rightarrow>
             let status = (if 0 < code then code else 200)
             in if status < 100 \<or> 999 < status then Panic ''invalid WriteHeader code''
                else Return (w1\<lparr>WrittenStatus := Some status,
                                Written := Written w1 @ jsonResponse\<rparr>))"

definition GeminiImageHandler ::
  "image_env \<Rightarrow> ResponseWriter \<Rightarrow> http_Response
     \<Rightarrow> (ResponseWriter \<times> (NewAPIError + Usage)) outcome" where
  "GeminiImageHandler env w resp =
     (case Body resp of
        Inl readErr \<Rightarrow> Return (w, Inl (types_NewError readErr ErrorCodeBadResponseBody))
      | Inr responseBody \<Rightarrow>
          (case unmarshalImageResponse env responseBody of
             Inl jsonErr \<Rightarrow> Return (w, Inl (types_NewError jsonErr ErrorCodeBadResponseBody))
           | Inr geminiResponse \<Rightarrow>
               if length (Predictions geminiResponse) = 0
               then Return (w, Inl (types_NewError ''no images generated''
                                      ErrorCodeBadResponseBody))
               else
                 let openAIResponse =
                       \<lparr>Created = GetTimestamp env,
                        Data = append_predictions [] (Predictions geminiResponse)\<rparr>
                 in (case marshalImageResponse env openAIResponse of
                       Inl jsonErr \<Rightarrow>
                         Return (w, Inl (types_NewError jsonErr ErrorCodeBadResponseBody))
                     | Inr jsonResponse \<Rightarrow>
                         (case write_response w (StatusCode resp) jsonResponse of
                            Panic msg \<Rightarrow> Panic msg
                          | Return w' \<Rightarrow>
                              let generatedImages = int (length (Data openAIResponse))
                              in Return (w', Inr \<lparr>PromptTokens = imageTokens * generatedImages,
                                                  CompletionTokens = 0,
                                                  TotalTokens = imageTokens * generatedImages\<rparr>)))))"

text \<open>The predictions the handler keeps: those without a filter reason.\<close>

definition accepted :: "GeminiImagePrediction list \<Rightarrow> GeminiImagePrediction list" where
  "accepted ps = filter (\<lambda>p. RaiFilteredReason p = '''') ps"

section \<open>Request-URL resolution (relay/channel/gemini/adaptor.go)\<close>

text \<open>
  \<open>model_setting.GetGeminiSettings()\<close>: the two switches the sources read.
\<close>

record GeminiSettings =
  ThinkingAdapterEnabled :: bool
  EnableCache :: bool

text \<open>
  The fields of \<open>relaycommon.RelayInfo\<close> that \<open>GetRequestURL\<close> uses, and the origin
  model name, which \<open>testChannel\<close> records in the consume log.
\<close>

record RelayInfo =
  OriginModelName :: string
  UpstreamModelName :: string
  BaseUrl :: string
  IsStream :: bool

text \<open>
  Lines 74-84: the rewrite of \<open>info.UpstreamModelName\<close>. \<open>parts[0]\<close> is an index into
  a slice and panics on an empty one.
\<close>

definition strip_thinking :: "GeminiSettings \<Rightarrow> RelayInfo \<Rightarrow> RelayInfo outcome" where
  "strip_thinking settings info =
     (if ThinkingAdapterEnabled settings then
        (if strings_Contains (UpstreamModelName info) ''-thinking-'' then
           (case strings_Split (UpstreamModelName info) ''-thinking-'' of
              [] \<Rightarrow> Panic ''index out of range''
            | part0 # _ \<Rightarrow> Return (info\<lparr>UpstreamModelName := part0\<rparr>))
         else if strings_HasSuffix (UpstreamModelName info) ''-thinking'' then
           Return (info\<lparr>UpstreamModelName :=
                     strings_TrimSuffix (UpstreamModelName info) ''-thinking''\<rparr>)
         else if strings_HasSuffix (UpstreamModelName info) ''-nothinking'' then
           Return (info\<lparr>UpstreamModelName :=
                     strings_TrimSuffix (UpstreamModelName info) ''-nothinking''\<rparr>)
         else Return info)
      else Return info)"

text \<open>
  Lines 86-102: the URL for the model name now in \<open>info\<close>.
  \<open>model_setting.GetGeminiVersionSetting\<close> is not in the files at hand and is a
  parameter.
\<close>

definition build_url :: "(string \<Rightarrow> string) \<Rightarrow> RelayInfo \<Rightarrow> string" where
  "build_url GetGeminiVersionSetting info =
     (let version = GetGeminiVersionSetting (UpstreamModelName info)
      in if strings_HasPrefix (UpstreamModelName info) ''imagen'' then
           BaseUrl info @ ''/'' @ version @ ''/models/'' @ UpstreamModelName info @ '':predict''
         else if strings_HasPrefix (UpstreamModelName info) ''text-embedding'' \<or>
                 strings_HasPrefix (UpstreamModelName info) ''embedding'' \<or>
                 strings_HasPrefix (UpstreamModelName info) ''gemini-embedding'' then
           BaseUrl info @ ''/'' @ version @ ''/models/'' @ UpstreamModelName info
             @ '':embedContent''
         else
           let action = (if IsStream info then ''streamGenerateContent?alt=sse''
                         else ''generateContent'')
           in BaseUrl info @ ''/'' @ version @ ''/models/'' @ UpstreamModelName info
                @ '':'' @ action)"

text \<open>
  \<open>GetRequestURL\<close> rewrites \<open>info\<close> in place and returns the URL (its error result is
  always \<open>nil\<close>), so the model returns the updated \<open>info\<close> with the URL.
\<close>

definition GetRequestURL ::
  "GeminiSettings \<Rightarrow> (string \<Rightarrow> string) \<Rightarrow> RelayInfo \<Rightarrow> (RelayInfo \<times> string) outcome" where
  "GetRequestURL settings GetGeminiVersionSetting info =
     (case strip_thinking settings info of
        Panic msg \<Rightarrow> Panic msg
      | Return info' \<Rightarrow> Return (info', build_url GetGeminiVersionSetting info'))"

section \<open>The prompt cache (relay/channel/gemini/cache.go and its four-result variant)\<close>

text \<open>
  Two files define the same functions of package \<open>gemini\<close>:
  \<open>relay/channel/gemini/cache.go\<close>, whose \<open>GetOrCreateGeminiCache\<close> returns a handle
  and an error, and a file whose name is not known (called part 000 here), whose
  \<open>GetOrCreateGeminiCache\<close> returns four results. The functions of the first keep their
  names; those of the second carry the suffix \<open>_part000\<close>. \<open>LookupGeminiCacheByID\<close>
  is the same text in both.

  The Gemini wire types are declared elsewhere; the records carry the fields the two
  files use. Where two Go types have a field of the same name, the later record
  prefixes it.
\<close>

record GeminiInlineData =
  MimeType :: string
  InlineData_Data :: string

record GeminiFileData =
  FileData_MimeType :: string
  FileUri :: string

record GeminiPart =
  Text :: string
  InlineData :: "GeminiInlineData option"
  FileData :: "GeminiFileData option"

record GeminiChatContent =
  Role :: string
  Parts :: "GeminiPart list"

text \<open>\<open>SystemInstructions\<close> is a pointer: \<open>None\<close> is \<open>nil\<close>.\<close>

record GeminiChatRequest =
  Contents :: "GeminiChatContent list"
  SystemInstructions :: "GeminiChatContent option"

record GeminiCachedContentRequest =
  Model :: string
  SystemInstruction :: "GeminiChatContent option"
  CachedContents :: "GeminiChatContent list"
  Ttl :: string
  DisplayName :: string

text \<open>
  What the cache code calls outside the two files: the Redis client, the HTTP client,
  \<open>encoding/json\<close> and \<open>common.GetMD5Hash\<close>. Each is a function of the environment,
  so a theorem about every environment covers every behaviour of the store and of the
  upstream API. \<open>RDB_Get\<close> is \<open>common.RDB.Get(ctx, key).Result()\<close>: the value, or an
  error (a missing key is the error \<open>redis.Nil\<close>). \<open>http_NewRequest\<close> is the error
  of \<open>http.NewRequest\<close> for a URL and a body, \<open>http_Do\<close> the round trip of the
  request made from them. \<open>showErrorBody\<close> is the text \<open>%v\<close> prints for the decoded
  error body, \<open>unmarshalCacheName\<close> the \<open>cache_name\<close> that \<open>json.Unmarshal\<close> leaves
  in the envelope struct (empty when the value does not parse), \<open>jsonString\<close> the JSON
  encoding of a string.
\<close>

record cache_env =
  Settings :: GeminiSettings
  RedisEnabled :: bool
  RDB_Get :: "string \<Rightarrow> go_error + string"
  http_Get :: "string \<Rightarrow> go_error + http_Response"
  http_NewRequest :: "string \<Rightarrow> string \<Rightarrow> go_error option"
  http_Do :: "string \<Rightarrow> string \<Rightarrow> go_error + http_Response"
  marshalCacheRequest :: "GeminiCachedContentRequest \<Rightarrow> go_error + string"
  decodeCacheResponse :: "http_Response \<Rightarrow> go_error + string"
  showErrorBody :: "http_Response \<Rightarrow> string"
  GetMD5Hash :: "string \<Rightarrow> string"
  marshalContent :: "GeminiChatContent \<Rightarrow> string"
  unmarshalCacheName :: "string \<Rightarrow> string"
  jsonString :: "string \<Rightarrow> string"

text \<open>
  The calls that leave the process are recorded in the order they are made. The TTL of a
  Redis write is in seconds (\<open>time.Hour\<close> is 3600). \<open>common.SysLog\<close> writes to the
  process log, which nothing reads back; the log lines are left out.
\<close>

datatype event =
    RedisGet string
  | RedisSet string string nat
  | HttpGet string
  | HttpPost string string

text \<open>Decimal digits of a number, as the verbs \<open>%d\<close> and \<open>%v\<close> print them.\<close>

fun decimal :: "nat \<Rightarrow> string" where
  "decimal n =
     (if n < 10 then [''0123456789'' ! n]
      else decimal (n div 10) @ [''0123456789'' ! (n mod 10)])"

declare decimal.simps [simp del]

definition Itoa :: "int \<Rightarrow> string" where
  "Itoa i = (if i < 0 then ''-'' @ decimal (nat (- i)) else decimal (nat i))"

text \<open>
  \<open>fmt.Sprintf\<close> with the verb \<open>%s\<close> applied to an \<open>int\<close> operand: package \<open>fmt\<close>
  prints an operand of the wrong type as \<open>%!verb(type=value)\<close>.
\<close>

definition Sprintf_s_int :: "int \<Rightarrow> string" where
  "Sprintf_s_int i = ''%!s(int='' @ Itoa i @ '')''"

subsection \<open>Token estimate and the threshold\<close>

definition GeminiCacheMinTokenThreshold :: int where
  "GeminiCacheMinTokenThreshold = 4096"

text \<open>The inner loop of \<open>CountTokensFromParts\<close>, \<open>count\<close> being the running total.\<close>

fun count_parts :: "int \<Rightarrow> GeminiPart list \<Rightarrow> int" where
  "count_parts count [] = count"
| "count_parts count (part # rest) =
     (if Text part \<noteq> ''''
      then count_parts (count + int (length (strings_Split (Text part) '' ''))) rest
      else count_parts count rest)"

text \<open>cache.go, lines 140-150: the outer loop over the contents.\<close>

fun count_contents :: "int \<Rightarrow> GeminiChatContent list \<Rightarrow> int" where
  "count_contents count [] = count"
| "count_contents count (content # rest) =
     count_contents (count_parts count (Parts content)) rest"

definition CountTokensFromParts :: "GeminiChatContent list \<Rightarrow> int" where
  "CountTokensFromParts contents = count_contents 0 contents"

definition ShouldEnableGeminiCache ::
  "GeminiSettings \<Rightarrow> string \<Rightarrow> GeminiChatContent list \<Rightarrow> bool" where
  "ShouldEnableGeminiCache settings model contents =
     (if \<not> EnableCache settings then False
      else let tokenCount = CountTokensFromParts contents
           in if tokenCount < GeminiCacheMinTokenThreshold then False else True)"

text \<open>
  Part 000, lines 153-161: the argument is a pointer to one content, and
  \<open>content.Parts\<close> dereferences it without a nil check.
\<close>

definition CountTokensFromParts_part000 :: "GeminiChatContent option \<Rightarrow> int outcome" where
  "CountTokensFromParts_part000 content =
     (case content of
        None \<Rightarrow> Panic ''invalid memory address or nil pointer dereference''
      | Some c \<Rightarrow> Return (count_parts 0 (Parts c)))"

definition ShouldEnableGeminiCache_part000 :: "GeminiSettings \<Rightarrow> string \<Rightarrow> int \<Rightarrow> bool" where
  "ShouldEnableGeminiCache_part000 settings model tokenCount =
     (if \<not> EnableCache settings then False
      else if tokenCount < GeminiCacheMinTokenThreshold then False else True)"

subsection \<open>The upstream calls\<close>

text \<open>
  \<open>LookupGeminiCacheByID\<close> (the same text in both files): the pair of results
  \<open>(bool, error)\<close>, with the HTTP request it makes.
\<close>

definition LookupGeminiCacheByID ::
  "cache_env \<Rightarrow> string \<Rightarrow> string \<Rightarrow> event list \<times> (bool \<times> go_error option)" where
  "LookupGeminiCacheByID env apiKey cachedID =
     (let url = ''https://generativelanguage.googleapis.com/v1beta/'' @ cachedID
                  @ ''?key='' @ apiKey
      in case http_Get env url of
           Inl err \<Rightarrow> ([HttpGet url], (False, Some (''lookup by ID failed: '' @ err)))
         | Inr resp \<Rightarrow>
             if StatusCode resp = 200 then ([HttpGet url], (True, None))
             else if StatusCode resp = 404 then ([HttpGet url], (False, None))
             else ([HttpGet url],
                   (False, Some (''lookup by ID failed: '' @ showErrorBody env resp))))"

text \<open>
  What \<open>CreateGeminiCache\<close> does once the request struct is built (the same text in
  both files).
\<close>

definition post_cache_request ::
  "cache_env \<Rightarrow> string \<Rightarrow> GeminiCachedContentRequest \<Rightarrow> event list \<times> (string \<times> go_error option)" where
  "post_cache_request env apiKey cacheReq =
     (case marshalCacheRequest env cacheReq of
        Inl err \<Rightarrow> ([], ('''', Some (''failed to marshal cache request: '' @ err)))
      | Inr body \<Rightarrow>
          let url = ''https://generativelanguage.googleapis.com/v1beta/cachedContents?key=''
                      @ apiKey
          in (case http_NewRequest env url body of
                Some err \<Rightarrow> ([], ('''', Some (''failed to create HTTP request: '' @ err)))
              | None \<Rightarrow>
                  (case http_Do env url body of
                     Inl err \<Rightarrow>
                       ([HttpPost url body],
                        ('''', Some (''failed to perform HTTP request: '' @ err)))
                   | Inr resp \<Rightarrow>
                       if StatusCode resp \<noteq> 200 then
                         ([HttpPost url body],
                          ('''', Some (''cache creation failed: '' @ showErrorBody env resp)))
                       else
                         (case decodeCacheResponse env resp of
                            Inl err \<Rightarrow>
                              ([HttpPost url body],
                               ('''', Some (''error decoding cache response: '' @ err)))
                          | Inr name \<Rightarrow> ([HttpPost url body], (name, None))))))"

text \<open>
  cache.go, lines 93-137. \<open>request.Contents[len(request.Contents)-1]\<close> panics on an
  empty slice.
\<close>

definition CreateGeminiCache ::
  "cache_env \<Rightarrow> string \<Rightarrow> string \<Rightarrow> GeminiChatRequest \<Rightarrow> string
     \<Rightarrow> event list \<times> (string \<times> go_error option) outcome" where
  "CreateGeminiCache env apiKey model request displayName =
     (let model' = (if \<not> strings_HasPrefix model ''models/'' then ''models/'' @ model
                    else model)
      in if Contents request = [] then ([], Panic ''index out of range'')
         else
           let cacheReq = \<lparr>Model = model',
                           SystemInstruction = SystemInstructions request,
                           CachedContents = [last (Contents request)],
                           Ttl = ''3600s'',
                           DisplayName = displayName\<rparr>;
               (events, res) = post_cache_request env apiKey cacheReq
           in (events, Return res))"

text \<open>Part 000, lines 107-150: no contents in the request, and a TTL of 600 seconds.\<close>

definition CreateGeminiCache_part000 ::
  "cache_env \<Rightarrow> string \<Rightarrow> string \<Rightarrow> GeminiChatRequest \<Rightarrow> string
     \<Rightarrow> event list \<times> (string \<times> go_error option)" where
  "CreateGeminiCache_part000 env apiKey model request displayName =
     (let model' = (if \<not> strings_HasPrefix model ''models/'' then ''models/'' @ model
                    else model);
          cacheReq = \<lparr>Model = model',
                      SystemInstruction = SystemInstructions request,
                      CachedContents = [],
                      Ttl = ''600s'',
                      DisplayName = displayName\<rparr>
      in post_cache_request env apiKey cacheReq)"

subsection \<open>The hash inputs\<close>

text \<open>cache.go, lines 157-172: what the string builder holds after the parts.\<close>

fun write_parts :: "string \<Rightarrow> GeminiPart list \<Rightarrow> string" where
  "write_parts b [] = b"
| "write_parts b (part # rest) =
     (let b1 = (if Text part \<noteq> '''' then b @ Text part else b);
          b2 = (case InlineData part of
                  Some d \<Rightarrow> b1 @ MimeType d @ '':'' @ InlineData_Data d
                | None \<Rightarrow> b1);
          b3 = (case FileData part of
                  Some f \<Rightarrow> b2 @ FileData_MimeType f @ '':'' @ FileUri f
                | None \<Rightarrow> b2)
      in write_parts b3 rest)"

text \<open>
  The loop of lines 153-175 runs from the last content to the first; the argument is the
  contents still to visit, the last one first.
\<close>

fun last_user_prompt :: "GeminiChatContent list \<Rightarrow> string" where
  "last_user_prompt [] = ''''"
| "last_user_prompt (content # earlier) =
     (if Role content = ''user'' then write_parts [] (Parts content)
      else last_user_prompt earlier)"

definition ExtractLastUserPromptText :: "GeminiChatRequest \<Rightarrow> string" where
  "ExtractLastUserPromptText request = last_user_prompt (rev (Contents request))"

text \<open>Part 000, lines 163-169. The error of \<open>json.Marshal\<close> is dropped.\<close>

definition HashSystemInstructions :: "cache_env \<Rightarrow> GeminiChatContent option \<Rightarrow> string" where
  "HashSystemInstructions env system =
     (case system of
        None \<Rightarrow> ''''
      | Some s \<Rightarrow> GetMD5Hash env (marshalContent env s))"

subsection \<open>\<open>GetOrCreateGeminiCache\<close>, cache.go\<close>

text \<open>Line 38: the key, the channel id formatted with the verb \<open>%s\<close>.\<close>

definition redisKey :: "int \<Rightarrow> string \<Rightarrow> string" where
  "redisKey channelID hash = ''gemini_cache:'' @ Sprintf_s_int channelID @ '':'' @ hash"

text \<open>
  Lines 43-56: the handle found in Redis and confirmed upstream, or \<open>None\<close> when the
  code goes on to line 58.
\<close>

definition confirmed_handle ::
  "cache_env \<Rightarrow> string \<Rightarrow> string \<Rightarrow> event list \<times> string option" where
  "confirmed_handle env apiKey key =
     (if RedisEnabled env then
        (case RDB_Get env key of
           Inl err \<Rightarrow> ([RedisGet key], None)
         | Inr cachedID \<Rightarrow>
             if cachedID \<noteq> '''' then
               (let (events, (exists, err)) = LookupGeminiCacheByID env apiKey cachedID
                in if err = None \<and> exists then (RedisGet key # events, Some cachedID)
                   else (RedisGet key # events, None))
             else ([RedisGet key], None))
      else ([], None))"

text \<open>The request is a pointer: \<open>None\<close> is \<open>nil\<close>, and reading a field of it panics.\<close>

definition GetOrCreateGeminiCache ::
  "cache_env \<Rightarrow> string \<Rightarrow> int \<Rightarrow> string \<Rightarrow> GeminiChatRequest option
     \<Rightarrow> event list \<times> (string \<times> go_error option) outcome" where
  "GetOrCreateGeminiCache env apiKey channelID model request =
     (case request of
        None \<Rightarrow> ([], Panic ''invalid memory address or nil pointer dereference'')
      | Some req \<Rightarrow>
          if \<not> ShouldEnableGeminiCache (Settings env) model (Contents req)
          then ([], Return ('''', None))
          else
            let prompt = ExtractLastUserPromptText req;
                hash = GetMD5Hash env (model @ ''|'' @ prompt);
                key = redisKey channelID hash
            in (case confirmed_handle env apiKey key of
                  (events, Some cachedID) \<Rightarrow> (events, Return (cachedID, None))
                | (events, None) \<Rightarrow>
                    (case CreateGeminiCache env apiKey model req hash of
                       (events', Panic msg) \<Rightarrow> (events @ events', Panic msg)
                     | (events', Return (newID, Some err)) \<Rightarrow>
                         (events @ events', Return ('''', Some err))
                     | (events', Return (newID, None)) \<Rightarrow>
                         (events @ events'
                            @ (if RedisEnabled env then [RedisSet key newID 3600] else []),
                          Return (newID, None)))))"

subsection \<open>\<open>GetOrCreateGeminiCache\<close>, part 000\<close>

definition redisKey_part000 :: "string \<Rightarrow> string" where
  "redisKey_part000 hash = ''gemini_cache:'' @ hash"

text \<open>
  Lines 70-74: \<open>json.Marshal\<close> of the map with the keys \<open>cache_name\<close> and
  \<open>channel_id\<close>; the encoder writes the keys of a map in sorted order.
\<close>

definition envelope :: "cache_env \<Rightarrow> string \<Rightarrow> int \<Rightarrow> string" where
  \<open>envelope env newID channelID =
     ''{"cache_name":'' @ jsonString env newID @ '',"channel_id":'' @ Itoa channelID @ ''}''\<close>

text \<open>
  Lines 42-62: the stored value is the envelope, the handle looked up is its
  \<open>cache_name\<close>.
\<close>

definition confirmed_handle_part000 ::
  "cache_env \<Rightarrow> string \<Rightarrow> string \<Rightarrow> event list \<times> string option" where
  "confirmed_handle_part000 env apiKey key =
     (if RedisEnabled env then
        (case RDB_Get env key of
           Inl err \<Rightarrow> ([RedisGet key], None)
         | Inr val \<Rightarrow>
             if val \<noteq> '''' then
               (let CacheName = unmarshalCacheName env val;
                    (events, (exists, err)) = LookupGeminiCacheByID env apiKey CacheName
                in if err = None \<and> exists then (RedisGet key # events, Some CacheName)
                   else (RedisGet key # events, None))
             else ([RedisGet key], None))
      else ([], None))"

text \<open>The four results: the handle, \<open>created\<close>, the estimated tokens, the error.\<close>

definition GetOrCreateGeminiCache_part000 ::
  "cache_env \<Rightarrow> string \<Rightarrow> int \<Rightarrow> string \<Rightarrow> GeminiChatRequest option
     \<Rightarrow> event list \<times> (string \<times> bool \<times> int \<times> go_error option) outcome" where
  "GetOrCreateGeminiCache_part000 env apiKey channelID model request =
     (case request of
        None \<Rightarrow> ([], Panic ''invalid memory address or nil pointer dereference'')
      | Some req \<Rightarrow>
          (case CountTokensFromParts_part000 (SystemInstructions req) of
             Panic msg \<Rightarrow> ([], Panic msg)
           | Return tokenCount \<Rightarrow>
               if \<not> ShouldEnableGeminiCache_part000 (Settings env) model tokenCount
               then ([], Return ('''', False, 0, None))
               else if SystemInstructions req \<noteq> None then
                 let hash = HashSystemInstructions env (SystemInstructions req);
                     key = redisKey_part000 hash
                 in (case confirmed_handle_part000 env apiKey key of
                       (events, Some CacheName) \<Rightarrow>
                         (events, Return (CacheName, False, 0, None))
                     | (events, None) \<Rightarrow>
                         (case CreateGeminiCache_part000 env apiKey model req hash of
                            (events', (newID, Some err)) \<Rightarrow>
                              (events @ events', Return ('''', False, 0, Some err))
                          | (events', (newID, None)) \<Rightarrow>
                              (events @ events'
                                 @ (if RedisEnabled env
                                    then [RedisSet key (envelope env newID channelID) 3600]
                                    else []),
                               Return (newID, True, tokenCount, None))))
               else ([], Return ('''', False, 0, None))))"

subsection \<open>The token estimate in the words of the specification\<close>

text \<open>
  The specification calls the estimate a whitespace-delimited word count. This is that
  count, written from the specification and not from the code, to be compared with
  \<open>CountTokensFromParts\<close>: the number of maximal runs of characters that are not
  white space (space, tab, line feed, vertical tab, form feed, carriage return), summed
  over the text parts.
\<close>

definition is_space :: "char \<Rightarrow> bool" where
  "is_space c = (c \<in> set [CHR '' '', CHR 0x09, CHR 0x0A, CHR 0x0B, CHR 0x0C, CHR 0x0D])"

fun word_count_from :: "bool \<Rightarrow> string \<Rightarrow> nat" where
  "word_count_from in_word [] = 0"
| "word_count_from in_word (c # cs) =
     (if is_space c then word_count_from False cs
      else (if in_word then 0 else 1) + word_count_from True cs)"

definition spec_word_count :: "string \<Rightarrow> nat" where
  "spec_word_count s = word_count_from False s"

definition spec_token_estimate :: "GeminiChatContent list \<Rightarrow> int" where
  "spec_token_estimate contents =
     (\<Sum>c\<leftarrow>contents. \<Sum>p\<leftarrow>Parts c. int (spec_word_count (Text p)))"

subsection \<open>A stored handle that is not confirmed\<close>

text \<open>
  The situations in which \<open>GetOrCreateGeminiCache\<close> has no handle it may reuse: Redis
  is not enabled; the read of the key fails (the key is missing, or the store cannot be
  reached); the value read is empty; or the existence check of the handle does not
  answer "exists" (it answers "not found", or it fails). \<open>handle_of\<close> takes the handle
  out of the stored value.
\<close>

definition unconfirmed :: "cache_env \<Rightarrow> string \<Rightarrow> string \<Rightarrow> (string \<Rightarrow> string) \<Rightarrow> bool" where
  "unconfirmed env apiKey key handle_of =
     (\<not> RedisEnabled env \<or>
      (case RDB_Get env key of
         Inl err \<Rightarrow> True
       | Inr val \<Rightarrow>
           val = '''' \<or> snd (LookupGeminiCacheByID env apiKey (handle_of val)) \<noteq> (True, None)))"

subsection \<open>Inputs for the examples\<close>

text \<open>The contents of a request that holds one user turn with one text part.\<close>

definition one_text :: "string \<Rightarrow> GeminiChatContent list" where
  "one_text t = [\<lparr>Role = ''user'', Parts = [\<lparr>Text = t, InlineData = None, FileData = None\<rparr>]\<rparr>]"

text \<open>The events of the cache lookup: a read of the store, an existence check.\<close>

fun is_lookup_event :: "event \<Rightarrow> bool" where
  "is_lookup_event (RedisGet key) = True"
| "is_lookup_event (HttpGet url) = True"
| "is_lookup_event _ = False"

section \<open>The single-flight guard of \<open>testAllChannels\<close> (controller/channel-test.go)\<close>

text \<open>
  \<open>testAllChannels\<close> shares two package variables with every other call of itself:
  the mutex \<open>testAllChannelsLock\<close> and the flag \<open>testAllChannelsRunning\<close>. The model
  is an interleaving of calls: each call has a program counter named after the line it is
  about to execute, and one step executes that line. Any number of calls may be in
  progress.

  The error of line 388 is \<open>errors.New\<close> of a Chinese message ("the test is already
  running"); these are its bytes in UTF-8.
\<close>

definition already_running :: go_error where
  "already_running =
     [CHR 0xE6, CHR 0xB5, CHR 0x8B, CHR 0xE8, CHR 0xAF, CHR 0x95, CHR 0xE5, CHR 0xB7, CHR 0xB2,
      CHR 0xE5, CHR 0x9C, CHR 0xA8, CHR 0xE8, CHR 0xBF, CHR 0x90, CHR 0xE8, CHR 0xA1, CHR 0x8C,
      CHR 0xE4, CHR 0xB8, CHR 0xAD]"

text \<open>
  The body of the loop (lines 410-452) calls \<open>testChannel\<close> and the collaborators of
  package \<open>service\<close>; for the flag only one thing about an iteration matters: whether it
  runs to its end or panics. A channel of the list is represented by that.
\<close>

datatype iteration = Completes | Panics

type_synonym tid = nat

datatype pc =
    L385_Lock
  | L386_Check
  | L387_Unlock_Return
  | L390_Set
  | L391_Unlock
  | L393_GetAllChannels
  | L402_Go "iteration list"
  | L409_Loop "iteration list"
  | L455_Notify
  | L404_Lock
  | L405_Clear
  | L406_Unlock
  | Done

text \<open>
  A call: where it is, and what it has returned to its caller (\<open>None\<close>: nothing yet;
  \<open>Some None\<close>: \<open>nil\<close>; \<open>Some (Some e)\<close>: the error \<open>e\<close>). After line 402 the call
  has returned and its program counter is that of the goroutine it started.
\<close>

record invocation =
  at :: pc
  returned :: "go_error option option"

text \<open>
  What a call is given: its argument, and what \<open>model.GetAllChannels\<close> answers to it.
  The argument decides only whether line 456 notifies the root user; the goroutine goes
  on to its deferred function either way.
\<close>

record config =
  notify :: bool
  GetAllChannels :: "go_error + iteration list"

text \<open>
  The shared state. \<open>testAllChannelsLock\<close> is \<open>None\<close> when the mutex is unlocked and
  names the call that locked it otherwise.
\<close>

record state =
  testAllChannelsLock :: "tid option"
  testAllChannelsRunning :: bool
  calls :: "tid \<Rightarrow> invocation"

definition move :: "tid \<Rightarrow> pc \<Rightarrow> state \<Rightarrow> state" where
  "move t p s = s\<lparr>calls := (calls s)(t := (calls s t)\<lparr>at := p\<rparr>)\<rparr>"

definition return_with :: "tid \<Rightarrow> go_error option \<Rightarrow> state \<Rightarrow> state" where
  "return_with t r s = s\<lparr>calls := (calls s)(t := (calls s t)\<lparr>returned := Some r\<rparr>)\<rparr>"

text \<open>
  One step of call \<open>t\<close>; \<open>None\<close> when the call cannot move: it waits for the mutex, or
  it is over. The deferred function of lines 403-407 runs when the goroutine's function
  ends, by reaching its end or by a panic.
\<close>

definition step :: "(tid \<Rightarrow> config) \<Rightarrow> tid \<Rightarrow> state \<Rightarrow> state option" where
  "step cfg t s =
     (case at (calls s t) of
        L385_Lock \<Rightarrow>
          (if testAllChannelsLock s = None
           then Some (move t L386_Check (s\<lparr>testAllChannelsLock := Some t\<rparr>))
           else None)
      | L386_Check \<Rightarrow>
          (if testAllChannelsRunning s then Some (move t L387_Unlock_Return s)
           else Some (move t L390_Set s))
      | L387_Unlock_Return \<Rightarrow>
          Some (move t Done
                 (return_with t (Some already_running) (s\<lparr>testAllChannelsLock := None\<rparr>)))
      | L390_Set \<Rightarrow> Some (move t L391_Unlock (s\<lparr>testAllChannelsRunning := True\<rparr>))
      | L391_Unlock \<Rightarrow> Some (move t L393_GetAllChannels (s\<lparr>testAllChannelsLock := None\<rparr>))
      | L393_GetAllChannels \<Rightarrow>
          (case GetAllChannels (cfg t) of
             Inl getChannelErr \<Rightarrow> Some (move t Done (return_with t (Some getChannelErr) s))
           | Inr channels \<Rightarrow> Some (move t (L402_Go channels) s))
      | L402_Go channels \<Rightarrow> Some (move t (L409_Loop channels) (return_with t None s))
      | L409_Loop [] \<Rightarrow> Some (move t L455_Notify s)
      | L409_Loop (Completes # rest) \<Rightarrow> Some (move t (L409_Loop rest) s)
      | L409_Loop (Panics # rest) \<Rightarrow> Some (move t L404_Lock s)
      | L455_Notify \<Rightarrow> Some (move t L404_Lock s)
      | L404_Lock \<Rightarrow>
          (if testAllChannelsLock s = None
           then Some (move t L405_Clear (s\<lparr>testAllChannelsLock := Some t\<rparr>))
           else None)
      | L405_Clear \<Rightarrow> Some (move t L406_Unlock (s\<lparr>testAllChannelsRunning := False\<rparr>))
      | L406_Unlock \<Rightarrow> Some (move t Done (s\<lparr>testAllChannelsLock := None\<rparr>))
      | Done \<Rightarrow> None)"

text \<open>
  A schedule names the call that moves next; a call that cannot move leaves the state as
  it is.
\<close>

fun exec :: "(tid \<Rightarrow> config) \<Rightarrow> tid list \<Rightarrow> state \<Rightarrow> state" where
  "exec cfg [] s = s"
| "exec cfg (t # ts) s =
     (case step cfg t s of None \<Rightarrow> exec cfg ts s | Some s' \<Rightarrow> exec cfg ts s')"

text \<open>
  The state at process start (lines 381-382): the mutex unlocked, the flag false, every
  call still before its first line.
\<close>

definition init :: state where
  "init = \<lparr>testAllChannelsLock = None, testAllChannelsRunning = False,
           calls = (\<lambda>t. \<lparr>at = L385_Lock, returned = None\<rparr>)\<rparr>"

text \<open>
  The lines between a \<open>Lock\<close> and its \<open>Unlock\<close>, and the lines at which a call has
  set the flag and not yet cleared it.
\<close>

fun in_critical :: "pc \<Rightarrow> bool" where
  "in_critical L386_Check = True"
| "in_critical L387_Unlock_Return = True"
| "in_critical L390_Set = True"
| "in_critical L391_Unlock = True"
| "in_critical L405_Clear = True"
| "in_critical L406_Unlock = True"
| "in_critical _ = False"

fun owns_flag :: "pc \<Rightarrow> bool" where
  "owns_flag L391_Unlock = True"
| "owns_flag L393_GetAllChannels = True"
| "owns_flag (L402_Go _) = True"
| "owns_flag (L409_Loop _) = True"
| "owns_flag L455_Notify = True"
| "owns_flag L404_Lock = True"
| "owns_flag L405_Clear = True"
| "owns_flag _ = False"

text \<open>The lines of the goroutine started at line 402.\<close>

fun in_batch :: "pc \<Rightarrow> bool" where
  "in_batch (L409_Loop _) = True"
| "in_batch L455_Notify = True"
| "in_batch L404_Lock = True"
| "in_batch L405_Clear = True"
| "in_batch L406_Unlock = True"
| "in_batch _ = False"

definition guard_inv :: "state \<Rightarrow> bool" where
  "guard_inv s =
     ((\<forall>t. in_critical (at (calls s t)) \<longleftrightarrow> testAllChannelsLock s = Some t) \<and>
      (\<forall>t. at (calls s t) = L390_Set \<longrightarrow> \<not> testAllChannelsRunning s) \<and>
      (\<forall>t. owns_flag (at (calls s t)) \<longrightarrow> testAllChannelsRunning s) \<and>
      (\<forall>t u. (owns_flag (at (calls s t)) \<or> in_batch (at (calls s t))) \<and>
             (owns_flag (at (calls s u)) \<or> in_batch (at (calls s u))) \<longrightarrow> t = u))"

text \<open>
  The lines a call can be at without ever having set the flag.
\<close>

fun never_set :: "pc \<Rightarrow> bool" where
  "never_set L385_Lock = True"
| "never_set L386_Check = True"
| "never_set L387_Unlock_Return = True"
| "never_set Done = True"
| "never_set _ = False"

definition flag_stuck :: "state \<Rightarrow> bool" where
  "flag_stuck s = (testAllChannelsRunning s \<and> (\<forall>t. never_set (at (calls s t))))"

section \<open>The quota of a channel test (controller/channel-test.go, lines 200-209)\<close>

subsection \<open>The \<open>float64\<close> operations the lines use\<close>

text \<open>
  A \<open>float64\<close> is a binary64 number of IEEE 754. \<open>Finite m e\<close> is the number
  \<open>m * 2^e\<close>; the numbers of the format are those with a magnitude \<open>m\<close> below
  \<open>2^53\<close> at an exponent from \<open>-1074\<close> on, below \<open>2^1024\<close>. \<open>Infinity neg\<close> is
  the infinity of that sign. The sign of a zero is not kept: nothing in the lines at hand
  tells the two zeros apart (\<open>-0 == 0\<close>, and both convert to the integer 0).
\<close>

datatype float64 = Finite int int | Infinity bool | NaN

text \<open>The number of binary digits of a natural number.\<close>

fun bitlen :: "nat \<Rightarrow> nat" where
  "bitlen n = (if n = 0 then 0 else Suc (bitlen (n div 2)))"

declare bitlen.simps [simp del]

text \<open>\<open>a * 2^e\<close> is at least \<open>2^1024\<close>: beyond the largest finite number.\<close>

definition overflows :: "nat \<Rightarrow> int \<Rightarrow> bool" where
  "overflows a e =
     (if 0 \<le> e then 2 ^ 1024 \<le> a * 2 ^ nat e else 2 ^ 1024 * 2 ^ nat (- e) \<le> a)"

text \<open>
  The \<open>float64\<close> nearest to the exact number \<open>M * 2^E\<close>, a tie going to the even
  neighbour (the rounding of every arithmetic operation of Go): \<open>q\<close> is the exponent
  at which 53 digits remain, not below that of the subnormal numbers.
\<close>

definition round_float64 :: "int \<Rightarrow> int \<Rightarrow> float64" where
  "round_float64 M E =
     (if M = 0 then Finite 0 0
      else
        let a = nat \<bar>M\<bar>;
            q = max (E + int (bitlen a) - 53) (- 1074)
        in if q \<le> E then (if overflows a E then Infinity (M < 0) else Finite M E)
           else
             let sh = nat (q - E);
                 k = a div 2 ^ sh;
                 r = a mod 2 ^ sh;
                 half = 2 ^ (sh - 1);
                 k' = (if half < r \<or> (r = half \<and> odd k) then k + 1 else k)
             in if overflows k' q then Infinity (M < 0) else Finite (sgn M * int k') q)"

text \<open>The product \<open>x * y\<close> of two \<open>float64\<close>: the exact product, rounded.\<close>

fun fmul :: "float64 \<Rightarrow> float64 \<Rightarrow> float64" where
  "fmul NaN y = NaN"
| "fmul x NaN = NaN"
| "fmul (Infinity s) (Infinity t) = Infinity (s \<noteq> t)"
| "fmul (Infinity s) (Finite m e) = (if m = 0 then NaN else Infinity (s \<noteq> (m < 0)))"
| "fmul (Finite m e) (Infinity s) = (if m = 0 then NaN else Infinity (s \<noteq> (m < 0)))"
| "fmul (Finite m1 e1) (Finite m2 e2) = round_float64 (m1 * m2) (e1 + e2)"

text \<open>The conversion \<open>float64(i)\<close> of an integer.\<close>

definition float64_of_int :: "int \<Rightarrow> float64" where
  "float64_of_int i = round_float64 i 0"

text \<open>\<open>math.Round\<close>: the nearest integer, a half going away from zero.\<close>

fun math_Round :: "float64 \<Rightarrow> float64" where
  "math_Round (Finite m e) =
     (if 0 \<le> e then Finite m e
      else
        let d = 2 ^ nat (- e);
            a = nat \<bar>m\<bar>;
            k = a div d;
            r = a mod d;
            k' = (if d \<le> 2 * r then k + 1 else k)
        in Finite (sgn m * int k') 0)"
| "math_Round x = x"

text \<open>
  The conversion \<open>int(x)\<close>: the fraction is dropped. For a value that does not fit the
  64 bits of an \<open>int\<close> (and for an infinity and a NaN) the language leaves the result to
  the implementation; \<open>out_of_range\<close> stands for what the implementation gives.
\<close>

definition go_int :: "(float64 \<Rightarrow> int) \<Rightarrow> float64 \<Rightarrow> int" where
  "go_int out_of_range x =
     (case x of
        Finite m e \<Rightarrow>
          let v = (if 0 \<le> e then m * 2 ^ nat e else sgn m * (\<bar>m\<bar> div 2 ^ nat (- e)))
          in if - (2 ^ 63) \<le> v \<and> v < 2 ^ 63 then v else out_of_range x
      | _ \<Rightarrow> out_of_range x)"

text \<open>The comparisons \<open>x != 0\<close> and \<open>x == y\<close> of Go.\<close>

fun ne_zero :: "float64 \<Rightarrow> bool" where
  "ne_zero (Finite m e) = (m \<noteq> 0)"
| "ne_zero x = True"

fun float_eq :: "float64 \<Rightarrow> float64 \<Rightarrow> bool" where
  "float_eq (Finite m1 e1) (Finite m2 e2) =
     (m1 * 2 ^ nat (e1 - min e1 e2) = m2 * 2 ^ nat (e2 - min e1 e2))"
| "float_eq (Infinity s) (Infinity t) = (s = t)"
| "float_eq x y = False"

text \<open>The sum of two \<open>int\<close> wraps around at 64 bits.\<close>

definition wrap64 :: "int \<Rightarrow> int" where
  "wrap64 i = (i + 2 ^ 63) mod 2 ^ 64 - 2 ^ 63"

subsection \<open>Lines 200-209\<close>

text \<open>
  The fields of \<open>priceData\<close> the lines read. \<open>common.QuotaPerUnit\<close> is a package
  variable of type \<open>float64\<close> and a parameter here.
\<close>

record PriceData =
  UsePrice :: bool
  CompletionRatio :: float64
  ModelRatio :: float64
  ModelPrice :: float64

definition test_quota :: "(float64 \<Rightarrow> int) \<Rightarrow> float64 \<Rightarrow> PriceData \<Rightarrow> Usage \<Rightarrow> int" where
  "test_quota out_of_range QuotaPerUnit priceData usage =
     (if \<not> UsePrice priceData then
        let quota = wrap64 (PromptTokens usage +
                      go_int out_of_range
                        (math_Round (fmul (float64_of_int (CompletionTokens usage))
                                          (CompletionRatio priceData))));
            quota' = go_int out_of_range
                       (math_Round (fmul (float64_of_int quota) (ModelRatio priceData)))
        in if ne_zero (ModelRatio priceData) \<and> quota' \<le> 0 then 1 else quota'
      else go_int out_of_range (fmul (ModelPrice priceData) QuotaPerUnit))"

text \<open>
  The amd64 implementation converts every value out of range to the least \<open>int\<close>.
\<close>

definition amd64_out_of_range :: "float64 \<Rightarrow> int" where
  "amd64_out_of_range x = - (2 ^ 63)"

text \<open>
  Some numbers as \<open>float64\<close>: 2, 0.5, 1 and 500000 are numbers of the format; 0.3 and
  0.000001 are not, and the literals denote their nearest neighbours.
\<close>

definition f64_2 :: float64 where "f64_2 = Finite 1 1"
definition f64_half :: float64 where "f64_half = Finite 1 (- 1)"
definition f64_1 :: float64 where "f64_1 = Finite 1 0"
definition f64_0 :: float64 where "f64_0 = Finite 0 0"
definition f64_500000 :: float64 where "f64_500000 = Finite 500000 0"
definition f64_0_3 :: float64 where "f64_0_3 = Finite 5404319552844595 (- 54)"
definition f64_0_000001 :: float64 where "f64_0_000001 = Finite 4722366482869645 (- 72)"

section \<open>Properties of the single-flight guard\<close>

text \<open>
  The invariant holds at process start and every step keeps it, so it holds in every
  state a schedule can reach.
\<close>

lemma guard_inv_init: "guard_inv init"
  by (simp add: guard_inv_def init_def)

text \<open>
  What the two state updates leave alone.
\<close>

lemma at_move [simp]: "at (calls (move t p s) u) = (if u = t then p else at (calls s u))"
  by (simp add: move_def)

lemma lock_move [simp]: "testAllChannelsLock (move t p s) = testAllChannelsLock s"
  by (simp add: move_def)

lemma running_move [simp]: "testAllChannelsRunning (move t p s) = testAllChannelsRunning s"
  by (simp add: move_def)

lemma at_return_with [simp]: "at (calls (return_with t r s) u) = at (calls s u)"
  by (simp add: return_with_def)

lemma lock_return_with [simp]: "testAllChannelsLock (return_with t r s) = testAllChannelsLock s"
  by (simp add: return_with_def)

lemma running_return_with [simp]:
  "testAllChannelsRunning (return_with t r s) = testAllChannelsRunning s"
  by (simp add: return_with_def)

lemma guard_inv_step:
  assumes inv: "guard_inv s" and st: "step cfg t s = Some s'"
  shows "guard_inv s'"
proof -
  from inv have I1: "\<And>u. in_critical (at (calls s u)) = (testAllChannelsLock s = Some u)"
    and I2: "\<And>u. at (calls s u) = L390_Set \<Longrightarrow> \<not> testAllChannelsRunning s"
    and I3: "\<And>u. owns_flag (at (calls s u)) \<Longrightarrow> testAllChannelsRunning s"
    and I4: "\<And>u v. owns_flag (at (calls s u)) \<or> in_batch (at (calls s u)) \<Longrightarrow>
                  owns_flag (at (calls s v)) \<or> in_batch (at (calls s v)) \<Longrightarrow> u = v"
    by (auto simp: guard_inv_def)
  note own = I1 [of t] I2 [of t] I3 [of t] I4 [of t] I4 [of _ t]
  show ?thesis
proof (cases "at (calls s t)")
  case L385_Lock
  with st have s': "testAllChannelsLock s = None" "s' = move t L386_Check (s\<lparr>testAllChannelsLock := Some t\<rparr>)"
    by (auto simp: step_def split: if_splits)
  from inv own L385_Lock s'(1) show ?thesis
    unfolding guard_inv_def s'(2) by (auto split: if_splits)
next
  case L386_Check
  with st have s': "s' = (if testAllChannelsRunning s then move t L387_Unlock_Return s else move t L390_Set s)"
    by (auto simp: step_def split: if_splits)
  from inv own L386_Check show ?thesis
    unfolding guard_inv_def s' by (auto split: if_splits)
next
  case L387_Unlock_Return
  with st have s': "s' = move t Done (return_with t (Some already_running) (s\<lparr>testAllChannelsLock := None\<rparr>))"
    by (auto simp: step_def)
  from inv own L387_Unlock_Return show ?thesis
    unfolding guard_inv_def s' by (auto split: if_splits)
next
  case L390_Set
  with st have s': "s' = move t L391_Unlock (s\<lparr>testAllChannelsRunning := True\<rparr>)"
    by (auto simp: step_def)
  from inv have crit: "\<And>u. in_critical (at (calls s u)) = (testAllChannelsLock s = Some u)"
    by (simp add: guard_inv_def)
  from crit [of t] L390_Set have held: "testAllChannelsLock s = Some t" by simp
  have only: "u = t" if "in_critical (at (calls s u))" for u
    using crit [of u] that held by simp
  from inv L390_Set have idle: "\<not> owns_flag (at (calls s u))" for u
    by (auto simp: guard_inv_def)
  have nobatch: "u = t" if "in_batch (at (calls s u))" for u
    using that idle [of u] only [of u] by (cases "at (calls s u)") simp_all
  have notset: "u = t" if "at (calls s u) = L390_Set" for u
    using that only [of u] by simp
  show ?thesis
    unfolding guard_inv_def s' using crit held idle nobatch notset
    by (auto split: if_splits)
next
  case L391_Unlock
  with st have s': "s' = move t L393_GetAllChannels (s\<lparr>testAllChannelsLock := None\<rparr>)"
    by (auto simp: step_def)
  from inv own L391_Unlock show ?thesis
    unfolding guard_inv_def s' by (auto split: if_splits)
next
  case L393_GetAllChannels
  with st have s': "(\<exists>e. s' = move t Done (return_with t (Some e) s)) \<or> (\<exists>cs. s' = move t (L402_Go cs) s)"
    by (auto simp: step_def split: sum.splits)
  from inv own L393_GetAllChannels s' show ?thesis
    unfolding guard_inv_def by (auto split: if_splits)
next
  case (L402_Go cs)
  with st have s': "s' = move t (L409_Loop cs) (return_with t None s)"
    by (auto simp: step_def)
  from inv own L402_Go show ?thesis
    unfolding guard_inv_def s' by (auto split: if_splits)
next
  case (L409_Loop cs)
  with st have s': "s' = move t L455_Notify s \<or> (\<exists>r. s' = move t (L409_Loop r) s) \<or> s' = move t L404_Lock s"
    by (auto simp: step_def split: list.splits iteration.splits)
  from inv own L409_Loop s' show ?thesis
    unfolding guard_inv_def by (auto split: if_splits)
next
  case L455_Notify
  with st have s': "s' = move t L404_Lock s"
    by (auto simp: step_def)
  from inv own L455_Notify show ?thesis
    unfolding guard_inv_def s' by (auto split: if_splits)
next
  case L404_Lock
  with st have s': "testAllChannelsLock s = None" "s' = move t L405_Clear (s\<lparr>testAllChannelsLock := Some t\<rparr>)"
    by (auto simp: step_def split: if_splits)
  from inv own L404_Lock s'(1) show ?thesis
    unfolding guard_inv_def s'(2) by (auto split: if_splits)
next
  case L405_Clear
  with st have s': "s' = move t L406_Unlock (s\<lparr>testAllChannelsRunning := False\<rparr>)"
    by (auto simp: step_def)
  from inv own L405_Clear show ?thesis
    unfolding guard_inv_def s' by (auto split: if_splits)
next
  case L406_Unlock
  with st have s': "s' = move t Done (s\<lparr>testAllChannelsLock := None\<rparr>)"
    by (auto simp: step_def)
  from inv own L406_Unlock show ?thesis
    unfolding guard_inv_def s' by (auto split: if_splits)
next
  case Done
  with st show ?thesis by (simp add: step_def)
qed
qed


lemma guard_inv_exec: "guard_inv s \<Longrightarrow> guard_inv (exec cfg sched s)"
proof (induction sched arbitrary: s)
  case Nil
  then show ?case by simp
next
  case (Cons t ts)
  show ?case
  proof (cases "step cfg t s")
    case None
    with Cons show ?thesis by simp
  next
    case (Some s')
    with Cons.prems have "guard_inv s'" by (rule_tac guard_inv_step)
    with Cons.IH Some show ?thesis by simp
  qed
qed

lemma guard_inv_reachable: "guard_inv (exec cfg sched init)"
  by (rule guard_inv_exec) (rule guard_inv_init)

text \<open>
  Only lines 390 and 405 write the flag, both between a \<open>Lock\<close> and its
  \<open>Unlock\<close>; so while one call holds the mutex, the steps of the others change neither the
  flag nor that call.
\<close>

lemma step_changes_flag:
  assumes "step cfg u s = Some s'"
    and "testAllChannelsRunning s' \<noteq> testAllChannelsRunning s"
  shows "at (calls s u) = L390_Set \<or> at (calls s u) = L405_Clear"
  using assms
  by (cases "at (calls s u)")
     (auto simp: step_def split: if_splits sum.splits list.splits iteration.splits)

lemma step_other_call:
  assumes "step cfg u s = Some s'" and "u \<noteq> t"
  shows "calls s' t = calls s t"
  using assms
  by (cases "at (calls s u)")
     (auto simp: step_def move_def return_with_def
           split: if_splits sum.splits list.splits iteration.splits)

lemma critical_section_atomic:
  assumes inv: "guard_inv s"
    and crit: "in_critical (at (calls s t))"
    and other: "u \<noteq> t"
    and st: "step cfg u s = Some s'"
  shows "testAllChannelsRunning s' = testAllChannelsRunning s \<and> calls s' t = calls s t"
proof -
  from inv have I1: "\<And>v. in_critical (at (calls s v)) = (testAllChannelsLock s = Some v)"
    by (simp add: guard_inv_def)
  from I1 [of t] crit have held: "testAllChannelsLock s = Some t" by simp
  have "testAllChannelsRunning s' = testAllChannelsRunning s"
  proof (rule ccontr)
    assume "testAllChannelsRunning s' \<noteq> testAllChannelsRunning s"
    with st have "at (calls s u) = L390_Set \<or> at (calls s u) = L405_Clear"
      by (rule step_changes_flag)
    then have "in_critical (at (calls s u))" by auto
    with I1 [of u] held other show False by simp
  qed
  moreover from st other have "calls s' t = calls s t" by (rule step_other_call)
  ultimately show ?thesis by simp
qed

text \<open>
  A call that finds the mutex free and the flag set: three steps of its own (lines 385,
  386, 387-388), after which only its own record has changed.
\<close>

lemma conflict_run:
  assumes "at (calls s t) = L385_Lock" and "testAllChannelsLock s = None"
    and "testAllChannelsRunning s"
  shows "testAllChannelsLock (exec cfg [t, t, t] s) = None \<and>
         testAllChannelsRunning (exec cfg [t, t, t] s) \<and>
         calls (exec cfg [t, t, t] s) =
           (calls s)(t := \<lparr>at = Done, returned = Some (Some already_running)\<rparr>)"
  using assms by (cases "calls s t") (simp add: step_def move_def return_with_def)

text \<open>
  Once the flag is set and no call is at a line from which it could clear it, the flag
  stays set under every schedule.
\<close>

lemma exec_append: "exec cfg (xs @ ys) s = exec cfg ys (exec cfg xs s)"
  by (induction xs arbitrary: s) (simp_all split: option.splits)

lemma flag_stuck_step:
  assumes "flag_stuck s" and "step cfg t s = Some s'"
  shows "flag_stuck s'"
proof -
  from assms(1) have run: "testAllChannelsRunning s" and ns: "\<And>u. never_set (at (calls s u))"
    by (simp_all add: flag_stuck_def)
  from ns [of t] assms(2) run
  have "testAllChannelsRunning s' \<and> never_set (at (calls s' t)) \<and>
        (\<forall>u. u \<noteq> t \<longrightarrow> at (calls s' u) = at (calls s u))"
    by (cases "at (calls s t)") (auto simp: step_def split: if_splits)
  with ns show ?thesis
    unfolding flag_stuck_def by (metis)
qed

lemma flag_stuck_exec: "flag_stuck s \<Longrightarrow> flag_stuck (exec cfg sched s)"
proof (induction sched arbitrary: s)
  case Nil
  then show ?case by simp
next
  case (Cons t ts)
  show ?case
  proof (cases "step cfg t s")
    case None
    with Cons show ?thesis by simp
  next
    case (Some s')
    with Cons.prems have "flag_stuck s'" by (rule_tac flag_stuck_step)
    with Cons.IH Some show ?thesis by simp
  qed
qed

text \<open>
  A call that is over stays as it is. A call that has tested the flag and found it set
  returns the error of line 388 whatever the other calls do in between.
\<close>

lemma done_stays:
  "at (calls s t) = Done \<Longrightarrow> calls (exec cfg sched s) t = calls s t"
proof (induction sched arbitrary: s)
  case Nil
  then show ?case by simp
next
  case (Cons u us)
  show ?case
  proof (cases "step cfg u s")
    case None
    with Cons show ?thesis by simp
  next
    case (Some s')
    with Cons.prems have "u \<noteq> t" by (auto simp: step_def)
    with Some have same: "calls s' t = calls s t" by (rule step_other_call)
    with Cons.prems have "at (calls s' t) = Done" by simp
    from Cons.IH [OF this] same Some show ?thesis by simp
  qed
qed

lemma unlock_return_under_interleaving:
  assumes "guard_inv s" and "at (calls s t) = L387_Unlock_Return" and "t \<in> set sched"
  shows "calls (exec cfg sched s) t = \<lparr>at = Done, returned = Some (Some already_running)\<rparr>"
  using assms
proof (induction sched arbitrary: s)
  case Nil
  then show ?case by simp
next
  case (Cons u us)
  show ?case
  proof (cases "u = t")
    case True
    from Cons.prems(2) have st: "step cfg t s = Some (move t Done
                 (return_with t (Some already_running) (s\<lparr>testAllChannelsLock := None\<rparr>)))"
      (is "_ = Some ?s'")
      by (simp add: step_def)
    have now: "calls ?s' t = \<lparr>at = Done, returned = Some (Some already_running)\<rparr>"
      by (cases "calls s t") (simp add: move_def return_with_def)
    then have "at (calls ?s' t) = Done" by simp
    from done_stays [OF this] now st True show ?thesis by simp
  next
    case False
    show ?thesis
    proof (cases "step cfg u s")
      case None
      with Cons False show ?thesis by simp
    next
      case (Some s')
      from Cons.prems(2) have crit: "in_critical (at (calls s t))" by simp
      from critical_section_atomic [OF Cons.prems(1) crit False Some]
      have same: "calls s' t = calls s t" by simp
      from Cons.prems(1) Some have "guard_inv s'" by (rule guard_inv_step)
      moreover from same Cons.prems(2) have "at (calls s' t) = L387_Unlock_Return" by simp
      moreover from Cons.prems(3) False have "t \<in> set us" by simp
      ultimately have "calls (exec cfg us s') t = \<lparr>at = Done, returned = Some (Some already_running)\<rparr>"
        by (rule Cons.IH)
      with Some show ?thesis by simp
    qed
  qed
qed

lemma conflict_under_interleaving:
  assumes "guard_inv s" and "at (calls s t) = L386_Check" and "testAllChannelsRunning s"
    and "2 \<le> count_list sched t"
  shows "calls (exec cfg sched s) t = \<lparr>at = Done, returned = Some (Some already_running)\<rparr>"
  using assms
proof (induction sched arbitrary: s)
  case Nil
  then show ?case by simp
next
  case (Cons u us)
  show ?case
  proof (cases "u = t")
    case True
    from Cons.prems(2,3) have st: "step cfg t s = Some (move t L387_Unlock_Return s)"
      by (simp add: step_def)
    from Cons.prems(1) st have inv': "guard_inv (move t L387_Unlock_Return s)"
      by (rule guard_inv_step)
    from Cons.prems(4) True have "1 \<le> count_list us t" by simp
    then have "t \<in> set us" by (metis count_list_0_iff not_one_le_zero)
    from unlock_return_under_interleaving [OF inv' _ this] st True show ?thesis by simp
  next
    case False
    show ?thesis
    proof (cases "step cfg u s")
      case None
      with Cons False show ?thesis by simp
    next
      case (Some s')
      from Cons.prems(2) have crit: "in_critical (at (calls s t))" by simp
      from critical_section_atomic [OF Cons.prems(1) crit False Some]
      have same: "calls s' t = calls s t" "testAllChannelsRunning s' = testAllChannelsRunning s"
        by simp_all
      from Cons.prems(1) Some have "guard_inv s'" by (rule guard_inv_step)
      moreover from same Cons.prems(2) have "at (calls s' t) = L386_Check" by simp
      moreover from same Cons.prems(3) have "testAllChannelsRunning s'" by simp
      moreover from Cons.prems(4) False have "2 \<le> count_list us t" by simp
      ultimately have "calls (exec cfg us s') t = \<lparr>at = Done, returned = Some (Some already_running)\<rparr>"
        by (rule Cons.IH)
      with Some show ?thesis by simp
    qed
  qed
qed

section \<open>Properties of the image response handler\<close>

lemma append_predictions_eq:
  "append_predictions data ps =
     data @ map (\<lambda>p. \<lparr>B64Json = BytesBase64Encoded p\<rparr>) (accepted ps)"
  by (induction ps arbitrary: data) (simp_all add: accepted_def)

lemma length_append_predictions:
  "length (append_predictions [] ps) = length (accepted ps)"
  by (simp add: append_predictions_eq)

text \<open>
  What the handler returns for a body that was read and parsed: the error for an empty
  prediction list, and otherwise, a marshalling error apart, the usage counted over the
  predictions it kept, which may be none.
\<close>

lemma GeminiImageHandler_parsed:
  assumes "Body resp = Inr responseBody"
    and "unmarshalImageResponse env responseBody = Inr geminiResponse"
  shows "GeminiImageHandler env w resp =
           (if Predictions geminiResponse = []
            then Return (w, Inl (types_NewError ''no images generated'' ErrorCodeBadResponseBody))
            else case marshalImageResponse env
                        \<lparr>Created = GetTimestamp env,
                         Data = map (\<lambda>p. \<lparr>B64Json = BytesBase64Encoded p\<rparr>)
                                    (accepted (Predictions geminiResponse))\<rparr> of
                   Inl jsonErr \<Rightarrow>
                     Return (w, Inl (types_NewError jsonErr ErrorCodeBadResponseBody))
                 | Inr jsonResponse \<Rightarrow>
                     (case write_response w (StatusCode resp) jsonResponse of
                        Panic msg \<Rightarrow> Panic msg
                      | Return w' \<Rightarrow>
                          Return (w',
                            Inr \<lparr>PromptTokens =
                                   258 * int (length (accepted (Predictions geminiResponse))),
                                 CompletionTokens = 0,
                                 TotalTokens =
                                   258 * int (length (accepted (Predictions geminiResponse)))\<rparr>)))"
  using assms
  by (simp add: GeminiImageHandler_def append_predictions_eq imageTokens_def Let_def
           split: sum.splits outcome.splits)

lemma write_response_written:
  "write_response w code jsonResponse = Return w' \<Longrightarrow>
     Written w' = Written w @ jsonResponse \<and> ContentType w' = Some ''application/json''"
  by (auto simp: write_response_def Let_def split: option.splits if_splits)

lemma write_response_status:
  "WrittenStatus w = None \<Longrightarrow> 100 \<le> code \<Longrightarrow> code \<le> 999 \<Longrightarrow>
     write_response w code jsonResponse =
       Return (w\<lparr>ContentType := Some ''application/json'', WrittenStatus := Some code,
                 Written := Written w @ jsonResponse\<rparr>)"
  by (simp add: write_response_def)

lemma GeminiImageHandler_written:
  assumes "GeminiImageHandler env w resp = Return (w', Inr usage)"
  shows "\<exists>responseBody geminiResponse jsonResponse.
           Body resp = Inr responseBody \<and>
           unmarshalImageResponse env responseBody = Inr geminiResponse \<and>
           marshalImageResponse env
             \<lparr>Created = GetTimestamp env,
              Data = map (\<lambda>p. \<lparr>B64Json = BytesBase64Encoded p\<rparr>)
                         (accepted (Predictions geminiResponse))\<rparr> = Inr jsonResponse \<and>
           Written w' = Written w @ jsonResponse"
  using assms
  by (auto simp: GeminiImageHandler_def append_predictions_eq Let_def
           split: sum.splits if_splits outcome.splits dest: write_response_written)

lemma GeminiImageHandler_error_kind:
  assumes "GeminiImageHandler env w resp = Return (w', Inl e)"
  shows "errorCode e = ErrorCodeBadResponseBody \<and> w' = w"
  using assms
  by (auto simp: GeminiImageHandler_def types_NewError_def Let_def
           split: sum.splits if_splits outcome.splits)

section \<open>Properties of the string functions and of the URL resolution\<close>

lemma prefix_iff_take: "prefix xs ys \<longleftrightarrow> take (length xs) ys = xs"
proof
  assume "prefix xs ys"
  then obtain zs where "ys = xs @ zs" by (auto elim: prefixE)
  then show "take (length xs) ys = xs" by simp
next
  assume "take (length xs) ys = xs"
  then have "xs = take (length xs) ys" by simp
  also have "prefix \<dots> ys" by (rule take_is_prefix)
  finally show "prefix xs ys" .
qed

text \<open>The first occurrence of a separator that does not occur earlier.\<close>

lemma strings_Index_first:
  assumes "sep \<noteq> []" and "\<not> strings_Contains (base @ butlast sep) sep"
  shows "strings_Index (base @ sep @ rest) sep = Some (length base)"
  using assms(2)
proof (induction base)
  case Nil
  from assms(1) obtain c cs where "sep @ rest = c # cs" by (cases sep) auto
  moreover have "prefix sep (sep @ rest)" by simp
  ultimately show ?case by simp
next
  case (Cons b bs)
  let ?n = "length sep"
  from Cons.prems have none: "strings_Index (b # bs @ butlast sep) sep = None"
    by (simp add: strings_Contains_def)
  then have np: "\<not> prefix sep (b # bs @ butlast sep)"
    and rest: "strings_Index (bs @ butlast sep) sep = None"
    by (auto split: if_splits)
  have "take ?n (b # bs @ sep @ rest) = take ?n (b # bs @ butlast sep)"
  proof -
    have "take k (sep @ rest) = take k (butlast sep)" if "k < ?n" for k
      using that by (simp add: take_butlast)
    moreover have "?n - Suc (length bs) < ?n" using assms(1) by simp
    ultimately show ?thesis
      by (cases ?n) (simp_all add: take_Cons' )
  qed
  with np have "\<not> prefix sep (b # bs @ sep @ rest)"
    by (simp add: prefix_iff_take)
  moreover from rest have "strings_Index (bs @ sep @ rest) sep = Some (length bs)"
    by (intro Cons.IH) (simp add: strings_Contains_def)
  ultimately show ?case by simp
qed

lemma strings_Split_first:
  assumes "sep \<noteq> []" and "\<not> strings_Contains (base @ butlast sep) sep"
  shows "strings_Split (base @ sep @ rest) sep = base # strings_Split rest sep"
  using assms strings_Index_first [OF assms, of rest]
  by (subst strings_Split.simps) simp

lemma strings_Contains_first:
  assumes "sep \<noteq> []" and "\<not> strings_Contains (base @ butlast sep) sep"
  shows "strings_Contains (base @ sep @ rest) sep"
  using strings_Index_first [OF assms, of rest] by (simp add: strings_Contains_def)

lemma strings_TrimSuffix_append: "strings_TrimSuffix (base @ suf) suf = base"
  by (simp add: strings_TrimSuffix_def strings_HasSuffix_def suffix_def)

lemma strings_HasSuffix_append: "strings_HasSuffix (base @ suf) suf"
  by (simp add: strings_HasSuffix_def suffix_def)

lemma nothinking_not_thinking:
  "\<not> strings_HasSuffix (base @ ''-nothinking'') ''-thinking''"
  by (simp add: strings_HasSuffix_def suffix_to_prefix)


lemma build_url_shape:
  "\<exists>action \<in> {''predict'', ''embedContent'', ''generateContent'',
                 ''streamGenerateContent?alt=sse''}.
     build_url ver info =
       BaseUrl info @ ''/'' @ ver (UpstreamModelName info) @ ''/models/''
         @ UpstreamModelName info @ '':'' @ action"
  by (simp add: build_url_def Let_def)

lemma strip_thinking_budget:
  assumes "ThinkingAdapterEnabled settings"
    and "UpstreamModelName info = base @ ''-thinking-'' @ budget"
    and "\<not> strings_Contains (base @ ''-thinking'') ''-thinking-''"
  shows "strip_thinking settings info = Return (info\<lparr>UpstreamModelName := base\<rparr>)"
proof -
  have sep: "''-thinking-'' \<noteq> []" "butlast ''-thinking-'' = ''-thinking''" by simp_all
  from assms(3) sep(2) have nc: "\<not> strings_Contains (base @ butlast ''-thinking-'') ''-thinking-''"
    by simp
  from strings_Contains_first [OF sep(1) nc, of budget]
    strings_Split_first [OF sep(1) nc, of budget] assms(1,2)
  show ?thesis by (simp add: strip_thinking_def)
qed

lemma strip_thinking_suffix:
  assumes "ThinkingAdapterEnabled settings"
    and "UpstreamModelName info = base @ ''-thinking''"
    and "\<not> strings_Contains (UpstreamModelName info) ''-thinking-''"
  shows "strip_thinking settings info = Return (info\<lparr>UpstreamModelName := base\<rparr>)"
  using assms strings_HasSuffix_append [of base "''-thinking''"]
    strings_TrimSuffix_append [of base "''-thinking''"]
  by (simp add: strip_thinking_def)

lemma strip_nothinking_suffix:
  assumes "ThinkingAdapterEnabled settings"
    and "UpstreamModelName info = base @ ''-nothinking''"
    and "\<not> strings_Contains (UpstreamModelName info) ''-thinking-''"
  shows "strip_thinking settings info = Return (info\<lparr>UpstreamModelName := base\<rparr>)"
  using assms strings_HasSuffix_append [of base "''-nothinking''"]
    strings_TrimSuffix_append [of base "''-nothinking''"]
    nothinking_not_thinking [of base]
  by (simp add: strip_thinking_def)

lemma strip_thinking_disabled:
  "\<not> ThinkingAdapterEnabled settings \<Longrightarrow> strip_thinking settings info = Return info"
  by (simp add: strip_thinking_def)

section \<open>Properties of the token estimate\<close>

lemma strings_Index_char_None:
  "strings_Index s [c] = None \<Longrightarrow> count_list s c = 0"
  by (induction s) (auto split: if_splits)

lemma strings_Index_char_Some:
  "strings_Index s [c] = Some m \<Longrightarrow>
     count_list (take m s) c = 0 \<and> m < length s \<and> s ! m = c"
proof (induction s arbitrary: m)
  case Nil
  then show ?case by simp
next
  case (Cons x xs)
  show ?case
  proof (cases "x = c")
    case True
    with Cons.prems show ?thesis by simp
  next
    case False
    with Cons.prems obtain k where k: "strings_Index xs [c] = Some k" "m = Suc k"
      by auto
    from Cons.IH [OF k(1)] k(2) False show ?thesis by simp
  qed
qed

lemma count_list_cut:
  assumes "m < length s"
  shows "count_list s c =
           count_list (take m s) c + (if s ! m = c then 1 else 0) + count_list (drop (Suc m) s) c"
proof -
  from assms have "s = take m s @ s ! m # drop (Suc m) s" by (rule id_take_nth_drop)
  then have "count_list s c = count_list (take m s @ s ! m # drop (Suc m) s) c" by simp
  then show ?thesis by simp
qed

lemma length_strings_Split_char:
  "length (strings_Split s [c]) = Suc (count_list s c)"
proof (induction s "[c]" rule: strings_Split.induct)
  case (1 s)
  show ?case
  proof (cases "strings_Index s [c]")
    case None
    then show ?thesis
      by (subst strings_Split.simps) (simp add: strings_Index_char_None)
  next
    case (Some m)
    from strings_Index_char_Some [OF Some]
    have m: "count_list (take m s) c = 0" "m < length s" "s ! m = c" by simp_all
    from 1 Some have "length (strings_Split (drop (Suc m) s) [c]) = Suc (count_list (drop (Suc m) s) c)"
      by simp
    with Some m count_list_cut [OF m(2), of c] show ?thesis
      by (subst strings_Split.simps) simp
  qed
qed

text \<open>The estimate of one text, and the sums the two loops compute.\<close>

lemma count_parts_sum:
  "count_parts count parts =
     count + (\<Sum>p\<leftarrow>parts. if Text p = '''' then 0
                           else int (count_list (Text p) (CHR '' '')) + 1)"
  by (induction parts arbitrary: count) (simp_all add: length_strings_Split_char)

lemma count_contents_sum:
  "count_contents count contents =
     count + (\<Sum>c\<leftarrow>contents. \<Sum>p\<leftarrow>Parts c.
                if Text p = '''' then 0 else int (count_list (Text p) (CHR '' '')) + 1)"
  by (induction contents arbitrary: count) (simp_all add: count_parts_sum)

lemma ShouldEnableGeminiCache_iff:
  "ShouldEnableGeminiCache settings model contents \<longleftrightarrow>
     EnableCache settings \<and>
     4096 \<le> (\<Sum>c\<leftarrow>contents. \<Sum>p\<leftarrow>Parts c.
               if Text p = '''' then 0 else int (count_list (Text p) (CHR '' '')) + 1)"
  by (auto simp: ShouldEnableGeminiCache_def CountTokensFromParts_def count_contents_sum
        GeminiCacheMinTokenThreshold_def Let_def)

lemma count_list_replicate_same: "count_list (replicate n c) c = n"
  by (induction n) simp_all


section \<open>Properties of the prompt cache\<close>



lemma confirmed_handle_unconfirmed:
  "unconfirmed env apiKey key (\<lambda>v. v) \<Longrightarrow> snd (confirmed_handle env apiKey key) = None"
  by (auto simp: unconfirmed_def confirmed_handle_def Let_def
           split: sum.splits prod.splits if_splits)

lemma confirmed_handle_part000_unconfirmed:
  "unconfirmed env apiKey key (unmarshalCacheName env) \<Longrightarrow>
     snd (confirmed_handle_part000 env apiKey key) = None"
  by (auto simp: unconfirmed_def confirmed_handle_part000_def Let_def
           split: sum.splits prod.splits if_splits)




text \<open>The store is written by \<open>GetOrCreateGeminiCache\<close> itself only.\<close>

lemma Lookup_no_write:
  "LookupGeminiCacheByID env apiKey cachedID = (ev, r) \<Longrightarrow> RedisSet k v ttl \<notin> set ev"
  by (auto simp: LookupGeminiCacheByID_def Let_def split: sum.splits if_splits)

lemma post_no_write:
  "post_cache_request env apiKey cacheReq = (ev, r) \<Longrightarrow> RedisSet k v ttl \<notin> set ev"
  by (auto simp: post_cache_request_def Let_def split: sum.splits option.splits if_splits)

lemma Create_no_write:
  "CreateGeminiCache env apiKey model req hash = (ev, r) \<Longrightarrow> RedisSet k v ttl \<notin> set ev"
  by (auto simp: CreateGeminiCache_def Let_def split: prod.splits if_splits
           dest: post_no_write)

lemma Create_part000_no_write:
  "CreateGeminiCache_part000 env apiKey model req hash = (ev, r) \<Longrightarrow>
     RedisSet k v ttl \<notin> set ev"
  by (auto simp: CreateGeminiCache_part000_def Let_def dest: post_no_write)

lemma confirmed_no_write:
  "confirmed_handle env apiKey key = (ev, r) \<Longrightarrow> RedisSet k v ttl \<notin> set ev"
  by (auto simp: confirmed_handle_def Let_def split: sum.splits prod.splits if_splits
           dest: Lookup_no_write)

lemma confirmed_part000_no_write:
  "confirmed_handle_part000 env apiKey key = (ev, r) \<Longrightarrow> RedisSet k v ttl \<notin> set ev"
  by (auto simp: confirmed_handle_part000_def Let_def split: sum.splits prod.splits if_splits
           dest: Lookup_no_write)

lemma GetOrCreateGeminiCache_writes:
  assumes "RedisSet k v ttl \<in> set (fst (GetOrCreateGeminiCache env apiKey channelID model request))"
  shows "\<exists>req. request = Some req \<and>
           k = redisKey channelID (GetMD5Hash env (model @ ''|'' @ ExtractLastUserPromptText req)) \<and>
           snd (GetOrCreateGeminiCache env apiKey channelID model request) = Return (v, None) \<and>
           ttl = 3600"
proof (cases request)
  case None
  with assms show ?thesis by (simp add: GetOrCreateGeminiCache_def)
next
  case (Some req)
  let ?hash = "GetMD5Hash env (model @ ''|'' @ ExtractLastUserPromptText req)"
  obtain ev c where ev: "confirmed_handle env apiKey (redisKey channelID ?hash) = (ev, c)"
    by (cases "confirmed_handle env apiKey (redisKey channelID ?hash)")
  obtain ev' r where cr: "CreateGeminiCache env apiKey model req ?hash = (ev', r)"
    by (cases "CreateGeminiCache env apiKey model req ?hash")
  from ev have n1: "RedisSet k v ttl \<notin> set ev" by (rule confirmed_no_write)
  from cr have n2: "RedisSet k v ttl \<notin> set ev'" by (rule Create_no_write)
  from assms Some ev cr n1 n2 show ?thesis
    by (auto simp: GetOrCreateGeminiCache_def Let_def
             split: if_splits option.splits outcome.splits prod.splits)
qed

lemma GetOrCreateGeminiCache_part000_writes:
  assumes "RedisSet k v ttl \<in>
             set (fst (GetOrCreateGeminiCache_part000 env apiKey channelID model request))"
  shows "\<exists>req newID tokens. request = Some req \<and>
           k = ''gemini_cache:'' @ HashSystemInstructions env (SystemInstructions req) \<and>
           v = envelope env newID channelID \<and>
           snd (GetOrCreateGeminiCache_part000 env apiKey channelID model request) =
             Return (newID, True, tokens, None) \<and>
           ttl = 3600"
proof (cases request)
  case None
  with assms show ?thesis by (simp add: GetOrCreateGeminiCache_part000_def)
next
  case (Some req)
  let ?hash = "HashSystemInstructions env (SystemInstructions req)"
  obtain ev c where ev: "confirmed_handle_part000 env apiKey (redisKey_part000 ?hash) = (ev, c)"
    by (cases "confirmed_handle_part000 env apiKey (redisKey_part000 ?hash)")
  obtain ev' h e where cr: "CreateGeminiCache_part000 env apiKey model req ?hash = (ev', h, e)"
    by (cases "CreateGeminiCache_part000 env apiKey model req ?hash") auto
  from ev have n1: "RedisSet k v ttl \<notin> set ev" by (rule confirmed_part000_no_write)
  from cr have n2: "RedisSet k v ttl \<notin> set ev'" by (rule Create_part000_no_write)
  from assms Some ev cr n1 n2 show ?thesis
    by (auto simp: GetOrCreateGeminiCache_part000_def Let_def redisKey_part000_def
             CountTokensFromParts_part000_def
             split: if_splits option.splits outcome.splits prod.splits)
qed

text \<open>The create path.\<close>

lemma ShouldEnableGeminiCache_nonempty:
  "ShouldEnableGeminiCache settings model contents \<Longrightarrow> contents \<noteq> []"
  by (auto simp: ShouldEnableGeminiCache_iff)

lemma Lookup_events:
  "LookupGeminiCacheByID env apiKey cachedID = (ev, r) \<Longrightarrow> e \<in> set ev \<Longrightarrow> is_lookup_event e"
  by (auto simp: LookupGeminiCacheByID_def Let_def split: sum.splits if_splits)

lemma confirmed_handle_events:
  "confirmed_handle env apiKey key = (ev, r) \<Longrightarrow> e \<in> set ev \<Longrightarrow> is_lookup_event e"
  by (auto simp: confirmed_handle_def Let_def split: sum.splits prod.splits if_splits
           dest: Lookup_events)

lemma confirmed_handle_part000_events:
  "confirmed_handle_part000 env apiKey key = (ev, r) \<Longrightarrow> e \<in> set ev \<Longrightarrow> is_lookup_event e"
  by (auto simp: confirmed_handle_part000_def Let_def split: sum.splits prod.splits if_splits
           dest: Lookup_events)

text \<open>
  Without a confirmed handle the call is the lookup followed by the create request, and
  by the write of what the request has created.
\<close>

lemma GetOrCreateGeminiCache_unconfirmed_run:
  assumes en: "ShouldEnableGeminiCache (Settings env) model (Contents req)"
    and un: "unconfirmed env apiKey
               (redisKey channelID (GetMD5Hash env (model @ ''|'' @ ExtractLastUserPromptText req)))
               (\<lambda>v. v)"
  shows "\<exists>before. (\<forall>e \<in> set before. is_lookup_event e) \<and>
           GetOrCreateGeminiCache env apiKey channelID model (Some req) =
             (case post_cache_request env apiKey
                     \<lparr>Model = (if strings_HasPrefix model ''models/'' then model
                               else ''models/'' @ model),
                      SystemInstruction = SystemInstructions req,
                      CachedContents = [last (Contents req)],
                      Ttl = ''3600s'',
                      DisplayName =
                        GetMD5Hash env (model @ ''|'' @ ExtractLastUserPromptText req)\<rparr> of
                (sent, (newID, None)) \<Rightarrow>
                  (before @ sent @
                     (if RedisEnabled env
                      then [RedisSet (redisKey channelID
                               (GetMD5Hash env (model @ ''|'' @ ExtractLastUserPromptText req)))
                              newID 3600]
                      else []),
                   Return (newID, None))
              | (sent, (newID, Some err)) \<Rightarrow> (before @ sent, Return ('''', Some err)))"
proof -
  let ?hash = "GetMD5Hash env (model @ ''|'' @ ExtractLastUserPromptText req)"
  from un have "snd (confirmed_handle env apiKey (redisKey channelID ?hash)) = None"
    by (rule confirmed_handle_unconfirmed)
  then obtain before where b: "confirmed_handle env apiKey (redisKey channelID ?hash) = (before, None)"
    by (cases "confirmed_handle env apiKey (redisKey channelID ?hash)") simp
  from b have ev: "\<forall>e \<in> set before. is_lookup_event e"
    by (blast intro: confirmed_handle_events)
  from en have ne: "Contents req \<noteq> []" by (rule ShouldEnableGeminiCache_nonempty)
  from en b ne have "GetOrCreateGeminiCache env apiKey channelID model (Some req) =
             (case post_cache_request env apiKey
                     \<lparr>Model = (if strings_HasPrefix model ''models/'' then model
                               else ''models/'' @ model),
                      SystemInstruction = SystemInstructions req,
                      CachedContents = [last (Contents req)],
                      Ttl = ''3600s'',
                      DisplayName = ?hash\<rparr> of
                (sent, (newID, None)) \<Rightarrow>
                  (before @ sent @
                     (if RedisEnabled env then [RedisSet (redisKey channelID ?hash) newID 3600]
                      else []),
                   Return (newID, None))
              | (sent, (newID, Some err)) \<Rightarrow> (before @ sent, Return ('''', Some err)))"
    by (auto simp: GetOrCreateGeminiCache_def CreateGeminiCache_def Let_def
             split: prod.splits option.splits)
  with ev show ?thesis by blast
qed

lemma GetOrCreateGeminiCache_part000_unconfirmed_run:
  assumes sys: "SystemInstructions req = Some sys"
    and en: "ShouldEnableGeminiCache_part000 (Settings env) model (count_parts 0 (Parts sys))"
    and un: "unconfirmed env apiKey
               (redisKey_part000 (HashSystemInstructions env (SystemInstructions req)))
               (unmarshalCacheName env)"
  shows "\<exists>before. (\<forall>e \<in> set before. is_lookup_event e) \<and>
           GetOrCreateGeminiCache_part000 env apiKey channelID model (Some req) =
             (case post_cache_request env apiKey
                     \<lparr>Model = (if strings_HasPrefix model ''models/'' then model
                               else ''models/'' @ model),
                      SystemInstruction = SystemInstructions req,
                      CachedContents = [],
                      Ttl = ''600s'',
                      DisplayName = HashSystemInstructions env (SystemInstructions req)\<rparr> of
                (sent, (newID, None)) \<Rightarrow>
                  (before @ sent @
                     (if RedisEnabled env
                      then [RedisSet (redisKey_part000
                                        (HashSystemInstructions env (SystemInstructions req)))
                              (envelope env newID channelID) 3600]
                      else []),
                   Return (newID, True, count_parts 0 (Parts sys), None))
              | (sent, (newID, Some err)) \<Rightarrow>
                  (before @ sent, Return ('''', False, 0, Some err)))"
proof -
  let ?hash = "HashSystemInstructions env (SystemInstructions req)"
  from un have "snd (confirmed_handle_part000 env apiKey (redisKey_part000 ?hash)) = None"
    by (rule confirmed_handle_part000_unconfirmed)
  then obtain before
    where b: "confirmed_handle_part000 env apiKey (redisKey_part000 ?hash) = (before, None)"
    by (cases "confirmed_handle_part000 env apiKey (redisKey_part000 ?hash)") simp
  from b have ev: "\<forall>e \<in> set before. is_lookup_event e"
    by (blast intro: confirmed_handle_part000_events)
  from sys en b have "GetOrCreateGeminiCache_part000 env apiKey channelID model (Some req) =
             (case post_cache_request env apiKey
                     \<lparr>Model = (if strings_HasPrefix model ''models/'' then model
                               else ''models/'' @ model),
                      SystemInstruction = SystemInstructions req,
                      CachedContents = [],
                      Ttl = ''600s'',
                      DisplayName = ?hash\<rparr> of
                (sent, (newID, None)) \<Rightarrow>
                  (before @ sent @
                     (if RedisEnabled env
                      then [RedisSet (redisKey_part000 ?hash) (envelope env newID channelID) 3600]
                      else []),
                   Return (newID, True, count_parts 0 (Parts sys), None))
              | (sent, (newID, Some err)) \<Rightarrow>
                  (before @ sent, Return ('''', False, 0, Some err)))"
    by (auto simp: GetOrCreateGeminiCache_part000_def CreateGeminiCache_part000_def
                   CountTokensFromParts_part000_def Let_def
             split: prod.splits option.splits)
  with ev show ?thesis by blast
qed

section \<open>Properties of the quota computation\<close>

text \<open>Rules that evaluate the operations at numerals.\<close>

lemma bitlen_0: "bitlen 0 = 0"
  by (simp add: bitlen.simps)

lemma bitlen_pos: "0 < n \<Longrightarrow> bitlen n = Suc (bitlen (n div 2))"
  by (subst bitlen.simps) simp

lemmas f64_eval = bitlen_0 bitlen_pos overflows_def round_float64_def float64_of_int_def
  go_int_def wrap64_def test_quota_def amd64_out_of_range_def Let_def
  f64_2_def f64_half_def f64_1_def f64_0_def f64_500000_def f64_0_3_def f64_0_000001_def

text \<open>
  The conversion of an integer gives an integer, which \<open>math.Round\<close> leaves as it is.
\<close>

lemma math_Round_float64_of_int: "math_Round (float64_of_int i) = float64_of_int i"
  by (auto simp: float64_of_int_def round_float64_def Let_def)

text \<open>
  An \<open>int\<close> converts to a finite number: the format reaches far beyond 64 bits. So the
  product with a ratio of zero is zero.
\<close>

lemma bitlen_le: "a < 2 ^ n \<Longrightarrow> bitlen a \<le> n"
proof (induction n arbitrary: a)
  case 0
  then show ?case by (simp add: bitlen.simps)
next
  case (Suc n)
  show ?case
  proof (cases "a = 0")
    case True
    then show ?thesis by (simp add: bitlen.simps)
  next
    case False
    from Suc.prems have "a div 2 < 2 ^ n" by simp
    then have "bitlen (a div 2) \<le> n" by (rule Suc.IH)
    with False show ?thesis by (subst bitlen.simps) simp
  qed
qed

lemma not_overflows_small:
  assumes "b \<le> 2 ^ 64" and "q \<le> 11"
  shows "\<not> overflows b q"
proof (cases "0 \<le> q")
  case True
  with assms(2) have "nat q \<le> 11" by simp
  then have "(2::nat) ^ nat q \<le> 2 ^ 11" by (intro power_increasing) simp_all
  with assms(1) have "b * 2 ^ nat q \<le> 2 ^ 64 * 2 ^ 11" by (rule mult_le_mono)
  also have "\<dots> = (2::nat) ^ 75" by (simp only: power_add [symmetric]) simp
  also have "\<dots> < (2::nat) ^ 1024" by (intro power_strict_increasing) simp_all
  finally have lt: "b * 2 ^ nat q < 2 ^ 1024" .
  from True have "overflows b q = (2 ^ 1024 \<le> b * 2 ^ nat q)"
    by (simp only: overflows_def if_True)
  with lt show ?thesis by (simp only: not_le)
next
  case False
  have "(2::nat) ^ 64 < 2 ^ 1024" by (intro power_strict_increasing) simp_all
  with assms(1) have "b < 2 ^ 1024" by (rule le_less_trans)
  also have "(2::nat) ^ 1024 = 2 ^ 1024 * 1" by (simp only: mult_1_right)
  also have "\<dots> \<le> 2 ^ 1024 * 2 ^ nat (- q)" by (intro mult_le_mono2) simp
  finally have lt: "b < 2 ^ 1024 * 2 ^ nat (- q)" .
  from False have "overflows b q = (2 ^ 1024 * 2 ^ nat (- q) \<le> b)"
    by (simp only: overflows_def if_False)
  with lt show ?thesis by (simp only: not_le)
qed

lemma round_float64_int_finite:
  assumes "\<bar>j\<bar> \<le> 2 ^ 63"
  shows "\<exists>m e. round_float64 j 0 = Finite m e"
proof (cases "j = 0")
  case True
  then show ?thesis by (simp add: round_float64_def)
next
  case False
  define a where "a = nat \<bar>j\<bar>"
  define q where "q = max (0 + int (bitlen a) - 53) (- 1074)"
  define k where "k = a div 2 ^ nat (q - 0)"
  define k' where "k' = (if 2 ^ (nat (q - 0) - 1) < a mod 2 ^ nat (q - 0) \<or>
        (a mod 2 ^ nat (q - 0) = 2 ^ (nat (q - 0) - 1) \<and> odd k) then k + 1 else k)"
  from False have eq: "round_float64 j 0 =
      (if q \<le> 0 then (if overflows a 0 then Infinity (j < 0) else Finite j 0)
       else (if overflows k' q then Infinity (j < 0) else Finite (sgn j * int k') q))"
    unfolding round_float64_def Let_def k'_def k_def q_def a_def
    by (simp only: if_False)
  from assms have a: "a \<le> 2 ^ 63" by (simp add: a_def)
  have "(2::nat) ^ 63 < 2 ^ 64" by (intro power_strict_increasing) simp_all
  with a have a64: "a < 2 ^ 64" by (rule le_less_trans)
  then have "bitlen a \<le> 64" by (rule bitlen_le)
  then have q: "q \<le> 11" by (simp add: q_def)
  from a64 have "a \<le> 2 ^ 64" by (rule less_imp_le)
  then have no_a: "\<not> overflows a 0" by (rule not_overflows_small) simp
  have "k \<le> a" unfolding k_def by (rule div_le_dividend)
  from this a have "k \<le> 2 ^ 63" by (rule le_trans)
  then have "k + 1 \<le> 2 ^ 63 + 1" by (simp only: add_le_cancel_right)
  also have "(2::nat) ^ 63 + 1 \<le> 2 ^ 64" by simp
  finally have k1: "k + 1 \<le> 2 ^ 64" .
  then have k0: "k \<le> 2 ^ 64" by (rule add_leD1)
  have "k' = k + 1 \<or> k' = k" unfolding k'_def by (rule if_split [THEN iffD2]) blast
  with k0 k1 have "k' \<le> 2 ^ 64" by blast
  then have no_k: "\<not> overflows k' q" using q by (rule not_overflows_small)
  show ?thesis
  proof (cases "q \<le> 0")
    case True
    with eq no_a have "round_float64 j 0 = Finite j 0" by (simp only: if_True if_False)
    then show ?thesis by blast
  next
    case qpos: False
    with eq no_k have "round_float64 j 0 = Finite (sgn j * int k') q"
      by (simp only: if_False)
    then show ?thesis by blast
  qed
qed

lemma wrap64_range: "\<bar>wrap64 i\<bar> \<le> 2 ^ 63"
proof -
  define r where "r = (i + 2 ^ 63) mod 2 ^ 64"
  have "0 \<le> r" "r < 2 ^ 64" by (simp_all add: r_def)
  then have "\<bar>r - 2 ^ 63\<bar> \<le> 2 ^ 63" by simp
  then show ?thesis by (simp only: wrap64_def r_def)
qed

lemma float64_of_int_wrap64_finite: "\<exists>m e. float64_of_int (wrap64 i) = Finite m e"
  unfolding float64_of_int_def using wrap64_range by (rule round_float64_int_finite)

lemma fmul_zero_ratio:
  assumes "\<not> ne_zero m"
  shows "fmul (float64_of_int (wrap64 i)) m = Finite 0 0"
proof -
  from assms obtain e where m: "m = Finite 0 e" by (cases m) auto
  from float64_of_int_wrap64_finite obtain m' e'
    where "float64_of_int (wrap64 i) = Finite m' e'" by blast
  with m show ?thesis by (simp add: round_float64_def)
qed

lemma go_int_zero: "go_int out_of_range (Finite 0 0) = 0"
  by (simp add: go_int_def)

section \<open>Claims about \<open>testAllChannels\<close>\<close>

text \<open>
  A call whose \<open>model.GetAllChannels\<close> fails has set the flag at line 390 and returns
  at line 395 without clearing it: the deferred function that clears it belongs to the
  goroutine of line 402, which this path never starts. After that every call finds the
  flag set and is rejected, and no call is left that could clear it, whatever the other
  calls are given.
\<close>

lemma GetAllChannels_error_flag_never_cleared:
  fixes cfg :: "tid \<Rightarrow> config" and n :: bool and e :: go_error
  defines "cfg' \<equiv> cfg(0 := \<lparr>notify = n, GetAllChannels = Inl e\<rparr>)"
  shows "testAllChannelsRunning (exec cfg' ([0, 0, 0, 0, 0] @ sched) init) \<and>
         calls (exec cfg' ([0, 0, 0, 0, 0] @ sched) init) 0 =
           \<lparr>at = Done, returned = Some (Some e)\<rparr>"
proof -
  let ?s = "exec cfg' [0, 0, 0, 0, 0] init"
  have c0: "calls ?s 0 = \<lparr>at = Done, returned = Some (Some e)\<rparr>"
    by (simp add: step_def move_def return_with_def init_def cfg'_def)
  have "at (calls ?s t) = (if t = 0 then Done else L385_Lock)" for t
    by (simp add: step_def move_def return_with_def init_def cfg'_def)
  then have "never_set (at (calls ?s t))" for t by simp
  moreover have "testAllChannelsRunning ?s"
    by (simp add: step_def move_def return_with_def init_def cfg'_def)
  ultimately have "flag_stuck ?s" by (simp add: flag_stuck_def)
  then have "flag_stuck (exec cfg' sched ?s)" by (rule flag_stuck_exec)
  then have "testAllChannelsRunning (exec cfg' sched ?s)" by (simp add: flag_stuck_def)
  moreover from c0 have "at (calls ?s 0) = Done" by simp
  from done_stays [OF this] c0 have "calls (exec cfg' sched ?s) 0 = \<lparr>at = Done, returned = Some (Some e)\<rparr>"
    by simp
  ultimately show ?thesis by (simp only: exec_append)
qed

text \<open>
  A goroutine that was started does clear the flag, when its loop ends and when an
  iteration panics: run alone from line 409, it ends with the flag false and the mutex
  unlocked.
\<close>

lemma batch_clears_flag:
  assumes "at (calls s t) = L409_Loop channels" and "testAllChannelsLock s = None"
  shows "\<exists>k \<le> length channels + 5.
           at (calls (exec cfg (replicate k t) s) t) = Done \<and>
           \<not> testAllChannelsRunning (exec cfg (replicate k t) s) \<and>
           testAllChannelsLock (exec cfg (replicate k t) s) = None"
  using assms
proof (induction channels arbitrary: s)
  case Nil
  then have "at (calls (exec cfg (replicate 5 t) s) t) = Done \<and>
           \<not> testAllChannelsRunning (exec cfg (replicate 5 t) s) \<and>
           testAllChannelsLock (exec cfg (replicate 5 t) s) = None"
    by (simp add: numeral_eq_Suc step_def)
  then show ?case by (intro exI [of _ 5]) simp
next
  case (Cons c cs)
  show ?case
  proof (cases c)
    case Completes
    let ?s' = "move t (L409_Loop cs) s"
    from Cons.prems Completes have st: "step cfg t s = Some ?s'" by (simp add: step_def)
    from Cons.prems have "at (calls ?s' t) = L409_Loop cs" "testAllChannelsLock ?s' = None"
      by simp_all
    from Cons.IH [OF this] obtain k where k: "k \<le> length cs + 5"
      "at (calls (exec cfg (replicate k t) ?s') t) = Done"
      "\<not> testAllChannelsRunning (exec cfg (replicate k t) ?s')"
      "testAllChannelsLock (exec cfg (replicate k t) ?s') = None"
      by blast
    with st show ?thesis by (intro exI [of _ "Suc k"]) simp
  next
    case Panics
    with Cons.prems have "at (calls (exec cfg (replicate 4 t) s) t) = Done \<and>
           \<not> testAllChannelsRunning (exec cfg (replicate 4 t) s) \<and>
           testAllChannelsLock (exec cfg (replicate 4 t) s) = None"
      by (simp add: numeral_eq_Suc step_def)
    then show ?thesis by (intro exI [of _ 4]) simp
  qed
qed

text \<open>
  Claim C1. The claim: on every exit path of \<open>testAllChannels\<close> the flag
  \<open>testAllChannelsRunning\<close> is false once the call and the batch it started are over.
  The code at the path the claim names: the first call is answered an error by
  \<open>model.GetAllChannels\<close>. It is over after its five steps, it has returned that
  error, the mutex is unlocked, no batch was started, and the flag is true; the next call
  is rejected as already running and leaves the flag true.
\<close>

theorem testAllChannels_GetAllChannels_error_leaves_flag_set:
  "let cfg = (\<lambda>t. \<lparr>notify = True,
                     GetAllChannels = (if t = 0 then Inl ''database is locked''
                                       else Inr [Completes])\<rparr>);
       s = exec cfg [0, 0, 0, 0, 0] init;
       s' = exec cfg [1, 1, 1] s
   in calls s 0 = \<lparr>at = Done, returned = Some (Some ''database is locked'')\<rparr> \<and>
      testAllChannelsLock s = None \<and>
      testAllChannelsRunning s \<and>
      calls s' 1 = \<lparr>at = Done, returned = Some (Some already_running)\<rparr> \<and>
      testAllChannelsRunning s'"
  by (simp add: step_def move_def return_with_def init_def)

text \<open>
  Claim C2. In every state that calls of \<open>testAllChannels\<close> can reach from process
  start, under any schedule and whatever \<open>model.GetAllChannels\<close> answers:
  \<^item> a call is between a \<open>Lock\<close> and its \<open>Unlock\<close> exactly when it holds the mutex, so
    the test of the flag (line 386) and its setting (line 390) are made under the mutex;
  \<^item> while a call is there, no step of another call changes the flag or the call;
  \<^item> a new call that finds the mutex free and the flag true is over after three steps of
    its own, with the "already running" error returned, and the mutex, the flag and
    every other call are as before;
  \<^item> a call that tests the flag while it is true returns the "already running" error
    however the other calls are interleaved with it;
  \<^item> at most one batch goroutine exists.
\<close>

theorem testAllChannels_single_flight:
  "let s = exec cfg sched init in
     (\<forall>t. in_critical (at (calls s t)) \<longleftrightarrow> testAllChannelsLock s = Some t) \<and>
     (\<forall>t u s'. in_critical (at (calls s t)) \<and> u \<noteq> t \<and> step cfg u s = Some s' \<longrightarrow>
        testAllChannelsRunning s' = testAllChannelsRunning s \<and> calls s' t = calls s t) \<and>
     (\<forall>t. at (calls s t) = L385_Lock \<and> testAllChannelsLock s = None \<and>
          testAllChannelsRunning s \<longrightarrow>
          testAllChannelsLock (exec cfg [t, t, t] s) = None \<and>
          testAllChannelsRunning (exec cfg [t, t, t] s) \<and>
          calls (exec cfg [t, t, t] s) =
            (calls s)(t := \<lparr>at = Done, returned = Some (Some already_running)\<rparr>)) \<and>
     (\<forall>t sched'. at (calls s t) = L386_Check \<and> testAllChannelsRunning s \<and>
          2 \<le> count_list sched' t \<longrightarrow>
          calls (exec cfg sched' s) t =
            \<lparr>at = Done, returned = Some (Some already_running)\<rparr>) \<and>
     (\<forall>t u. in_batch (at (calls s t)) \<and> in_batch (at (calls s u)) \<longrightarrow> t = u)"
proof -
  define s where "s = exec cfg sched init"
  have inv: "guard_inv s" unfolding s_def by (rule guard_inv_reachable)
  have a: "\<forall>t. in_critical (at (calls s t)) \<longleftrightarrow> testAllChannelsLock s = Some t"
    using inv by (simp add: guard_inv_def)
  have b: "\<forall>t u s'. in_critical (at (calls s t)) \<and> u \<noteq> t \<and> step cfg u s = Some s' \<longrightarrow>
        testAllChannelsRunning s' = testAllChannelsRunning s \<and> calls s' t = calls s t"
    using critical_section_atomic [OF inv] by blast
  have c: "\<forall>t. at (calls s t) = L385_Lock \<and> testAllChannelsLock s = None \<and>
          testAllChannelsRunning s \<longrightarrow>
          testAllChannelsLock (exec cfg [t, t, t] s) = None \<and>
          testAllChannelsRunning (exec cfg [t, t, t] s) \<and>
          calls (exec cfg [t, t, t] s) =
            (calls s)(t := \<lparr>at = Done, returned = Some (Some already_running)\<rparr>)"
    using conflict_run by blast
  have d: "\<forall>t sched'. at (calls s t) = L386_Check \<and> testAllChannelsRunning s \<and>
          2 \<le> count_list sched' t \<longrightarrow>
          calls (exec cfg sched' s) t =
            \<lparr>at = Done, returned = Some (Some already_running)\<rparr>"
    using conflict_under_interleaving [OF inv] by blast
  have e: "\<forall>t u. in_batch (at (calls s t)) \<and> in_batch (at (calls s u)) \<longrightarrow> t = u"
    using inv unfolding guard_inv_def by blast
  from a b c d e show ?thesis unfolding s_def Let_def by blast
qed

theorem testAllChannels_single_flight_witness:
  "let cfg = (\<lambda>t. \<lparr>notify = True, GetAllChannels = Inr [Completes, Completes]\<rparr>);
       s = exec cfg [0, 0, 0, 0, 0, 0] init;
       s2 = exec cfg [0, 0, 0, 0, 0, 0, 1] init
   in at (calls s 0) = L409_Loop [Completes, Completes] \<and>
      at (calls s 1) = L385_Lock \<and> testAllChannelsLock s = None \<and>
      testAllChannelsRunning s \<and>
      testAllChannelsRunning (exec cfg [1, 1, 1] s) \<and>
      calls (exec cfg [1, 1, 1] s) =
        (calls s)(1 := \<lparr>at = Done, returned = Some (Some already_running)\<rparr>) \<and>
      at (calls s2 1) = L386_Check \<and> in_critical (at (calls s2 1)) \<and>
      testAllChannelsLock s2 = Some 1 \<and> testAllChannelsRunning s2 \<and>
      step cfg 0 s2 = Some (move 0 (L409_Loop [Completes]) s2) \<and>
      calls (move 0 (L409_Loop [Completes]) s2) 1 = calls s2 1 \<and>
      calls (exec cfg [0, 1, 0, 1] s2) 1 =
        \<lparr>at = Done, returned = Some (Some already_running)\<rparr> \<and>
      in_batch (at (calls s2 0))"
proof -
  define cfg :: "tid \<Rightarrow> config"
    where "cfg = (\<lambda>t. \<lparr>notify = True, GetAllChannels = Inr [Completes, Completes]\<rparr>)"
  define s where "s = exec cfg [0, 0, 0, 0, 0, 0] init"
  define s2 where "s2 = exec cfg [0, 0, 0, 0, 0, 0, 1] init"
  have h: "at (calls s 0) = L409_Loop [Completes, Completes]"
    "at (calls s 1) = L385_Lock" "testAllChannelsLock s = None" "testAllChannelsRunning s"
    by (simp_all add: s_def cfg_def step_def move_def return_with_def init_def)
  have h2: "at (calls s2 1) = L386_Check" "testAllChannelsLock s2 = Some 1"
    "testAllChannelsRunning s2" "at (calls s2 0) = L409_Loop [Completes, Completes]"
    by (simp_all add: s2_def cfg_def step_def move_def return_with_def init_def)
  from h2(4) have st: "step cfg 0 s2 = Some (move 0 (L409_Loop [Completes]) s2)"
    by (simp add: step_def)
  note thm1 = testAllChannels_single_flight [of cfg "[0, 0, 0, 0, 0, 0]",
      unfolded Let_def, folded s_def]
  note thm2 = testAllChannels_single_flight [of cfg "[0, 0, 0, 0, 0, 0, 1]",
      unfolded Let_def, folded s2_def]
  from thm1 h
  have c3: "testAllChannelsLock (exec cfg [1, 1, 1] s) = None \<and>
          testAllChannelsRunning (exec cfg [1, 1, 1] s) \<and>
          calls (exec cfg [1, 1, 1] s) =
            (calls s)(1 := \<lparr>at = Done, returned = Some (Some already_running)\<rparr>)"
    by blast
  from thm2 have c1: "in_critical (at (calls s2 1)) \<longleftrightarrow> testAllChannelsLock s2 = Some 1"
    by blast
  from thm2 have "in_critical (at (calls s2 1)) \<and> (0::nat) \<noteq> 1 \<and>
        step cfg 0 s2 = Some (move 0 (L409_Loop [Completes]) s2) \<longrightarrow>
        testAllChannelsRunning (move 0 (L409_Loop [Completes]) s2) = testAllChannelsRunning s2 \<and>
        calls (move 0 (L409_Loop [Completes]) s2) 1 = calls s2 1"
    by blast
  with c1 h2 st have c2: "calls (move 0 (L409_Loop [Completes]) s2) 1 = calls s2 1"
    by simp
  from thm2 have "at (calls s2 1) = L386_Check \<and> testAllChannelsRunning s2 \<and>
          2 \<le> count_list [0, 1, 0, 1] (1::nat) \<longrightarrow>
          calls (exec cfg [0, 1, 0, 1] s2) 1 =
            \<lparr>at = Done, returned = Some (Some already_running)\<rparr>"
    by blast
  with h2 have c4: "calls (exec cfg [0, 1, 0, 1] s2) 1 =
            \<lparr>at = Done, returned = Some (Some already_running)\<rparr>"
    by simp
  from h h2 c1 c2 c3 c4 st show ?thesis
    unfolding s_def [symmetric] s2_def [symmetric] cfg_def [symmetric] Let_def by simp
qed

section \<open>Claims about the image response handler\<close>

text \<open>
  A response whose two predictions both carry a filter reason, and an environment that
  parses every body to it.
\<close>

definition all_filtered_response :: GeminiImageResponse where
  "all_filtered_response =
     \<lparr>Predictions = [\<lparr>BytesBase64Encoded = '''', RaiFilteredReason = ''blocked by safety filter''\<rparr>,
                     \<lparr>BytesBase64Encoded = '''', RaiFilteredReason = ''blocked by safety filter''\<rparr>]\<rparr>"

definition all_filtered_env :: image_env where
  "all_filtered_env =
     \<lparr>unmarshalImageResponse = (\<lambda>body. Inr all_filtered_response),
      marshalImageResponse =
        (\<lambda>r. Inr (if Data r = [] then ''{no images}'' else ''{some images}'')),
      GetTimestamp = 0\<rparr>"

text \<open>
  Claim C3. The claim: a response whose predictions are all content-filtered yields a
  \<open>BadResponseBody\<close> error, as an empty prediction list does. The code at such a
  response, two predictions each with a filter reason: the check of line 223 sees a list
  that is not empty, the loop keeps nothing, and the handler writes a response with no
  image, status 200, and returns a usage of zero tokens and no error. (The other two
  parts of the claim hold: lemma \<open>GeminiImageHandler_parsed\<close>.)
\<close>

theorem GeminiImageHandler_all_filtered_succeeds:
  "GeminiImageHandler all_filtered_env
       \<lparr>ContentType = None, WrittenStatus = None, Written = ''''\<rparr>
       \<lparr>StatusCode = 200, Body = Inr ''upstream body''\<rparr> =
     Return
       (\<lparr>ContentType = Some ''application/json'', WrittenStatus = Some 200,
         Written = ''{no images}''\<rparr>,
        Inr \<lparr>PromptTokens = 0, CompletionTokens = 0, TotalTokens = 0\<rparr>)"
  by (simp add: GeminiImageHandler_def write_response_def all_filtered_env_def
        all_filtered_response_def imageTokens_def)

text \<open>
  Claim C8. Whenever the handler returns a usage, the body was read and parsed, the
  prompt tokens are 258 times the number of predictions without a filter reason, the
  completion tokens are zero and the total equals the prompt tokens.
\<close>

theorem GeminiImageHandler_usage:
  assumes "GeminiImageHandler env w resp = Return (w', Inr usage)"
  shows "\<exists>responseBody geminiResponse.
           Body resp = Inr responseBody \<and>
           unmarshalImageResponse env responseBody = Inr geminiResponse \<and>
           PromptTokens usage = 258 * int (length (accepted (Predictions geminiResponse))) \<and>
           CompletionTokens usage = 0 \<and>
           TotalTokens usage = PromptTokens usage"
  using assms
  by (auto simp: GeminiImageHandler_def length_append_predictions imageTokens_def Let_def
           split: sum.splits if_splits outcome.splits)

definition mixed_response :: GeminiImageResponse where
  "mixed_response =
     \<lparr>Predictions = [\<lparr>BytesBase64Encoded = ''aGVsbG8='', RaiFilteredReason = ''''\<rparr>,
                     \<lparr>BytesBase64Encoded = '''', RaiFilteredReason = ''blocked by safety filter''\<rparr>,
                     \<lparr>BytesBase64Encoded = ''d29ybGQ='', RaiFilteredReason = ''''\<rparr>]\<rparr>"

definition mixed_env :: image_env where
  "mixed_env =
     \<lparr>unmarshalImageResponse = (\<lambda>body. Inr mixed_response),
      marshalImageResponse = (\<lambda>r. Inr (concat (map B64Json (Data r)))),
      GetTimestamp = 0\<rparr>"

theorem GeminiImageHandler_usage_witness:
  "GeminiImageHandler mixed_env
       \<lparr>ContentType = None, WrittenStatus = None, Written = ''''\<rparr>
       \<lparr>StatusCode = 200, Body = Inr ''upstream body''\<rparr> =
     Return
       (\<lparr>ContentType = Some ''application/json'', WrittenStatus = Some 200,
         Written = ''aGVsbG8=d29ybGQ=''\<rparr>,
        Inr \<lparr>PromptTokens = 516, CompletionTokens = 0, TotalTokens = 516\<rparr>) \<and>
   (\<exists>responseBody geminiResponse.
      unmarshalImageResponse mixed_env responseBody = Inr geminiResponse \<and>
      (516 :: int) = 258 * int (length (accepted (Predictions geminiResponse))))"
proof -
  have run: "GeminiImageHandler mixed_env
       \<lparr>ContentType = None, WrittenStatus = None, Written = ''''\<rparr>
       \<lparr>StatusCode = 200, Body = Inr ''upstream body''\<rparr> =
     Return
       (\<lparr>ContentType = Some ''application/json'', WrittenStatus = Some 200,
         Written = ''aGVsbG8=d29ybGQ=''\<rparr>,
        Inr \<lparr>PromptTokens = 516, CompletionTokens = 0, TotalTokens = 516\<rparr>)"
    by (simp add: GeminiImageHandler_def write_response_def mixed_env_def mixed_response_def
          imageTokens_def)
  from GeminiImageHandler_usage [OF run] run show ?thesis by auto
qed

section \<open>Claim about the request URL\<close>

text \<open>A request for a model whose name ends in \<open>-thinking\<close>.\<close>

definition thinking_info :: RelayInfo where
  "thinking_info =
     \<lparr>OriginModelName = ''gemini-2.5-flash-thinking'',
      UpstreamModelName = ''gemini-2.5-flash-thinking'',
      BaseUrl = ''https://generativelanguage.googleapis.com'',
      IsStream = False\<rparr>"

text \<open>
  Claim C7, as stated: for every model name with a \<open>-thinking-<budget>\<close> segment, a
  \<open>-thinking\<close> suffix or a \<open>-nothinking\<close> suffix, the URL is built from the name
  without it. The rewrite of lines 75-83 is inside the test of
  \<open>ThinkingAdapterEnabled\<close> (line 74): with the switch off, the URL carries the name
  as it came.
\<close>

theorem GetRequestURL_keeps_suffix_when_disabled:
  "GetRequestURL \<lparr>ThinkingAdapterEnabled = False, EnableCache = False\<rparr>
       (\<lambda>name. ''v1beta'') thinking_info =
     Return (thinking_info,
       ''https://generativelanguage.googleapis.com/v1beta/models/gemini-2.5-flash-thinking:generateContent'')"
  by (simp add: GetRequestURL_def strip_thinking_def build_url_def thinking_info_def
        strings_HasPrefix_def)

text \<open>
  Claim C7, amended: when \<open>ThinkingAdapterEnabled\<close> is set, the URL is built from the
  base name, and \<open>info.UpstreamModelName\<close> becomes the base name, where the base name
  is the text before the first \<open>-thinking-\<close> if the name contains one, and otherwise
  the name without its suffix \<open>-thinking\<close> or \<open>-nothinking\<close>.
  \<open>info.OriginModelName\<close> is not touched.
\<close>

theorem GetRequestURL_strips_thinking_when_enabled:
  assumes "ThinkingAdapterEnabled settings"
    and "(UpstreamModelName info = base @ ''-thinking-'' @ budget \<and>
          \<not> strings_Contains (base @ ''-thinking'') ''-thinking-'') \<or>
         (UpstreamModelName info = base @ ''-thinking'' \<and>
          \<not> strings_Contains (UpstreamModelName info) ''-thinking-'') \<or>
         (UpstreamModelName info = base @ ''-nothinking'' \<and>
          \<not> strings_Contains (UpstreamModelName info) ''-thinking-'')"
  shows "\<exists>info' url.
           GetRequestURL settings ver info = Return (info', url) \<and>
           UpstreamModelName info' = base \<and>
           OriginModelName info' = OriginModelName info \<and>
           (\<exists>action \<in> {''predict'', ''embedContent'', ''generateContent'',
                         ''streamGenerateContent?alt=sse''}.
              url = BaseUrl info @ ''/'' @ ver base @ ''/models/'' @ base @ '':'' @ action)"
proof -
  let ?info' = "info\<lparr>UpstreamModelName := base\<rparr>"
  from assms have "strip_thinking settings info = Return ?info'"
    using strip_thinking_budget strip_thinking_suffix strip_nothinking_suffix by blast
  then have "GetRequestURL settings ver info = Return (?info', build_url ver ?info')"
    by (simp add: GetRequestURL_def)
  moreover from build_url_shape [of ver ?info']
  have "\<exists>action \<in> {''predict'', ''embedContent'', ''generateContent'',
                     ''streamGenerateContent?alt=sse''}.
          build_url ver ?info' = BaseUrl info @ ''/'' @ ver base @ ''/models/'' @ base @ '':'' @ action"
    by simp
  ultimately show ?thesis by simp
qed

definition budget_info :: RelayInfo where
  "budget_info =
     \<lparr>OriginModelName = ''gemini-2.5-flash-thinking-1024'',
      UpstreamModelName = ''gemini-2.5-flash-thinking-1024'',
      BaseUrl = ''https://generativelanguage.googleapis.com'',
      IsStream = True\<rparr>"

theorem GetRequestURL_strips_thinking_when_enabled_witness:
  "ThinkingAdapterEnabled \<lparr>ThinkingAdapterEnabled = True, EnableCache = False\<rparr> \<and>
   UpstreamModelName budget_info = ''gemini-2.5-flash'' @ ''-thinking-'' @ ''1024'' \<and>
   \<not> strings_Contains (''gemini-2.5-flash'' @ ''-thinking'') ''-thinking-'' \<and>
   (\<exists>info'.
      GetRequestURL \<lparr>ThinkingAdapterEnabled = True, EnableCache = False\<rparr>
          (\<lambda>name. ''v1beta'') budget_info =
        Return (info',
          ''https://generativelanguage.googleapis.com/v1beta/models/gemini-2.5-flash:streamGenerateContent?alt=sse'') \<and>
      UpstreamModelName info' = ''gemini-2.5-flash'' \<and>
      OriginModelName info' = ''gemini-2.5-flash-thinking-1024'')"
proof -
  have h1: "ThinkingAdapterEnabled \<lparr>ThinkingAdapterEnabled = True, EnableCache = False\<rparr>"
    by simp
  have h2: "UpstreamModelName budget_info = ''gemini-2.5-flash'' @ ''-thinking-'' @ ''1024''"
    by (simp add: budget_info_def)
  have h3: "\<not> strings_Contains (''gemini-2.5-flash'' @ ''-thinking'') ''-thinking-''"
    by (simp add: strings_Contains_def)
  from h2 h3
  have h: "(UpstreamModelName budget_info = ''gemini-2.5-flash'' @ ''-thinking-'' @ ''1024'' \<and>
          \<not> strings_Contains (''gemini-2.5-flash'' @ ''-thinking'') ''-thinking-'') \<or>
         (UpstreamModelName budget_info = ''gemini-2.5-flash'' @ ''-thinking'' \<and>
          \<not> strings_Contains (UpstreamModelName budget_info) ''-thinking-'') \<or>
         (UpstreamModelName budget_info = ''gemini-2.5-flash'' @ ''-nothinking'' \<and>
          \<not> strings_Contains (UpstreamModelName budget_info) ''-thinking-'')"
    by blast
  from GetRequestURL_strips_thinking_when_enabled [OF h1 h, of "\<lambda>name. ''v1beta''"]
  obtain info' url where r:
    "GetRequestURL \<lparr>ThinkingAdapterEnabled = True, EnableCache = False\<rparr>
        (\<lambda>name. ''v1beta'') budget_info = Return (info', url)"
    "UpstreamModelName info' = ''gemini-2.5-flash''"
    "OriginModelName info' = OriginModelName budget_info"
    by blast
  have "GetRequestURL \<lparr>ThinkingAdapterEnabled = True, EnableCache = False\<rparr>
        (\<lambda>name. ''v1beta'') budget_info =
      Return (budget_info\<lparr>UpstreamModelName := ''gemini-2.5-flash''\<rparr>,
        ''https://generativelanguage.googleapis.com/v1beta/models/gemini-2.5-flash:streamGenerateContent?alt=sse'')"
    by (simp add: GetRequestURL_def strip_thinking_def build_url_def budget_info_def
          strings_HasPrefix_def strings_Contains_def strings_Split.simps)
  with r have "url = ''https://generativelanguage.googleapis.com/v1beta/models/gemini-2.5-flash:streamGenerateContent?alt=sse''"
    by simp
  with r h1 h2 h3 show ?thesis by (simp add: budget_info_def)
qed

section \<open>Claim about the caching threshold\<close>

text \<open>A text of \<open>n\<close> one-letter words, each followed by a line feed.\<close>

definition lines_of_words :: "nat \<Rightarrow> string" where
  "lines_of_words n = concat (replicate n [CHR ''a'', CHR 0x0A])"

lemma spec_word_count_lines: "spec_word_count (lines_of_words n) = n"
  by (induction n) (simp_all add: spec_word_count_def lines_of_words_def is_space_def)

lemma count_spaces_lines: "count_list (lines_of_words n) (CHR '' '') = 0"
  by (induction n) (simp_all add: lines_of_words_def)

lemma lines_of_words_empty: "lines_of_words n = [] \<longleftrightarrow> n = 0"
  by (cases n) (simp_all add: lines_of_words_def)

text \<open>
  Claim C5, as stated: with caching enabled, \<open>ShouldEnableGeminiCache\<close> is true exactly
  when the whitespace-delimited word count of the text parts is at least 4096. A text of
  4096 words separated by line feeds has that word count, and the code, which cuts at
  spaces only, counts one piece and answers false.
\<close>

theorem ShouldEnableGeminiCache_word_count_counterexample:
  "EnableCache \<lparr>ThinkingAdapterEnabled = False, EnableCache = True\<rparr> \<and>
   spec_token_estimate (one_text (lines_of_words 4096)) = 4096 \<and>
   \<not> ShouldEnableGeminiCache \<lparr>ThinkingAdapterEnabled = False, EnableCache = True\<rparr>
        ''gemini-1.5-pro'' (one_text (lines_of_words 4096))"
  by (simp add: spec_token_estimate_def one_text_def spec_word_count_lines
        ShouldEnableGeminiCache_iff count_spaces_lines lines_of_words_empty)

text \<open>
  Claim C5, amended: \<open>ShouldEnableGeminiCache\<close> is true exactly when caching is enabled
  and the estimate is at least 4096, the estimate being, summed over the text parts that
  are not empty, one more than the number of space characters in the text (the number of
  pieces \<open>strings.Split(text, " ")\<close> returns).
\<close>

theorem ShouldEnableGeminiCache_threshold:
  "ShouldEnableGeminiCache settings model contents \<longleftrightarrow>
     EnableCache settings \<and>
     4096 \<le> (\<Sum>c\<leftarrow>contents. \<Sum>p\<leftarrow>Parts c.
               if Text p = '''' then 0 else int (count_list (Text p) (CHR '' '')) + 1)"
  by (rule ShouldEnableGeminiCache_iff)

theorem ShouldEnableGeminiCache_threshold_witness:
  "ShouldEnableGeminiCache \<lparr>ThinkingAdapterEnabled = False, EnableCache = True\<rparr>
      ''gemini-1.5-pro'' (one_text (replicate 4095 (CHR '' ''))) \<and>
   \<not> ShouldEnableGeminiCache \<lparr>ThinkingAdapterEnabled = False, EnableCache = True\<rparr>
      ''gemini-1.5-pro'' (one_text (replicate 4094 (CHR '' ''))) \<and>
   \<not> ShouldEnableGeminiCache \<lparr>ThinkingAdapterEnabled = False, EnableCache = False\<rparr>
      ''gemini-1.5-pro'' (one_text (replicate 4095 (CHR '' '')))"
  using ShouldEnableGeminiCache_threshold
          [of "\<lparr>ThinkingAdapterEnabled = False, EnableCache = True\<rparr>" "''gemini-1.5-pro''"
              "one_text (replicate 4095 (CHR '' ''))"]
        ShouldEnableGeminiCache_threshold
          [of "\<lparr>ThinkingAdapterEnabled = False, EnableCache = True\<rparr>" "''gemini-1.5-pro''"
              "one_text (replicate 4094 (CHR '' ''))"]
        ShouldEnableGeminiCache_threshold
          [of "\<lparr>ThinkingAdapterEnabled = False, EnableCache = False\<rparr>" "''gemini-1.5-pro''"
              "one_text (replicate 4095 (CHR '' ''))"]
  by (simp add: one_text_def count_list_replicate_same)

section \<open>Claims about the prompt cache\<close>

text \<open>
  An environment for the examples: caching is enabled, Redis holds a handle under every
  key, the upstream API answers 404 to the existence check and 200 to the creation, and
  the handle it creates is \<open>cachedContents/new\<close>. The request carries 4095 spaces as
  its text, which the code estimates at 4096 tokens, in its contents and in its system
  instructions.
\<close>

definition stale_env :: cache_env where
  "stale_env =
     \<lparr>Settings = \<lparr>ThinkingAdapterEnabled = False, EnableCache = True\<rparr>,
      RedisEnabled = True,
      RDB_Get = (\<lambda>key. Inr ''cachedContents/old''),
      http_Get = (\<lambda>url. Inr \<lparr>StatusCode = 404, Body = Inr ''''\<rparr>),
      http_NewRequest = (\<lambda>url body. None),
      http_Do = (\<lambda>url body. Inr \<lparr>StatusCode = 200, Body = Inr ''''\<rparr>),
      marshalCacheRequest = (\<lambda>r. Inr ''{}''),
      decodeCacheResponse = (\<lambda>resp. Inr ''cachedContents/new''),
      showErrorBody = (\<lambda>resp. ''''),
      GetMD5Hash = (\<lambda>s. ''5d41402a''),
      marshalContent = (\<lambda>c. ''{}''),
      unmarshalCacheName = (\<lambda>v. v),
      jsonString = (\<lambda>s. s)\<rparr>"

definition big_request :: GeminiChatRequest where
  "big_request =
     \<lparr>Contents = one_text (replicate 4095 (CHR '' '')),
      SystemInstructions =
        Some \<lparr>Role = ''system'',
              Parts = [\<lparr>Text = replicate 4095 (CHR '' ''), InlineData = None,
                        FileData = None\<rparr>]\<rparr>\<rparr>"



text \<open>
  Claim C9. The claim: a mapping scoped to a channel is written under the key
  \<open>gemini_cache:<channelId>:<hash>\<close>. The code of cache.go, line 38, formats the
  channel id, an \<open>int\<close>, with the verb \<open>%s\<close>; for channel 7 the key it reads and
  writes is \<open>gemini_cache:%!s(int=7):<hash>\<close>. (The value is the raw handle and the TTL
  one hour: lemma \<open>GetOrCreateGeminiCache_writes\<close>. The four-result variant writes the
  envelope under \<open>gemini_cache:<hash>\<close> with the same TTL: lemma
  \<open>GetOrCreateGeminiCache_part000_writes\<close>.)
\<close>

theorem GetOrCreateGeminiCache_key_has_bad_verb:
  "fst (GetOrCreateGeminiCache stale_env ''KEY'' 7 ''gemini-1.5-pro'' (Some big_request)) =
     [RedisGet ''gemini_cache:%!s(int=7):5d41402a'',
      HttpGet ''https://generativelanguage.googleapis.com/v1beta/cachedContents/old?key=KEY'',
      HttpPost ''https://generativelanguage.googleapis.com/v1beta/cachedContents?key=KEY'' ''{}'',
      RedisSet ''gemini_cache:%!s(int=7):5d41402a'' ''cachedContents/new'' 3600]"
proof -
  have en: "ShouldEnableGeminiCache (Settings stale_env) ''gemini-1.5-pro'' (Contents big_request)"
    by (simp add: ShouldEnableGeminiCache_iff big_request_def one_text_def stale_env_def
          count_list_replicate_same)
  have key: "redisKey 7 ''5d41402a'' = ''gemini_cache:%!s(int=7):5d41402a''"
    by (simp add: redisKey_def Sprintf_s_int_def Itoa_def decimal.simps)
  have nonempty: "Contents big_request \<noteq> []"
    by (simp add: big_request_def one_text_def)
  from en key nonempty show ?thesis
    by (simp add: GetOrCreateGeminiCache_def confirmed_handle_def LookupGeminiCacheByID_def
          CreateGeminiCache_def post_cache_request_def stale_env_def strings_HasPrefix_def
          Let_def)
qed

text \<open>
  Claim C10. The claim: the four-result \<open>GetOrCreateGeminiCache\<close> returns for every
  request, and for one without system instructions it returns the empty handle and no
  error. The code: line 31 passes \<open>request.SystemInstructions\<close> to
  \<open>CountTokensFromParts\<close>, which reads \<open>content.Parts\<close> through the nil pointer; the
  call panics before the nil test of line 36, whatever the configuration.
\<close>

theorem GetOrCreateGeminiCache_part000_nil_SystemInstructions_panics:
  "GetOrCreateGeminiCache_part000 env apiKey channelID model
       (Some \<lparr>Contents = contents, SystemInstructions = None\<rparr>) =
     ([], Panic ''invalid memory address or nil pointer dereference'')"
  by (simp add: GetOrCreateGeminiCache_part000_def CountTokensFromParts_part000_def)

section \<open>Claim about the quota of a channel test\<close>

text \<open>
  Claim C6, as stated: for a flat-priced model the quota equals
  \<open>modelPrice * quotaPerUnit\<close>. Line 208 converts the product with \<open>int()\<close>, which
  drops the fraction: with a price of 0.000001 and the default 500000 quota per unit the
  product is 0.5 and the quota is 0.
\<close>

theorem test_quota_flat_price_counterexample:
  "fmul f64_0_000001 f64_500000 = Finite 9007199254740992 (- 54) \<and>
   test_quota amd64_out_of_range f64_500000
     \<lparr>UsePrice = True, CompletionRatio = f64_1, ModelRatio = f64_1,
      ModelPrice = f64_0_000001\<rparr>
     \<lparr>PromptTokens = 100, CompletionTokens = 50, TotalTokens = 150\<rparr> = 0 \<and>
   \<not> float_eq (float64_of_int 0) (fmul f64_0_000001 f64_500000)"
  by (simp add: f64_eval)

text \<open>
  Claim C6, amended. All arithmetic is that of \<open>float64\<close>. For a ratio-priced model
  the quota is \<open>round(round(p + round(c * r)) * m)\<close> converted to \<open>int\<close>, and 1 in its
  place exactly when \<open>m != 0\<close> and that value is at most 0; so it is 0 when \<open>m\<close> is
  zero and at least 1 otherwise. For a flat-priced model the quota is
  \<open>modelPrice * quotaPerUnit\<close> converted to \<open>int\<close>, the fraction dropped. With
  \<open>p = 100\<close>, \<open>c = 50\<close>, \<open>r = 2.0\<close>, \<open>m = 0.5\<close> the quota is 100.
\<close>

theorem test_quota_float64:
  "(\<not> UsePrice pd \<longrightarrow>
      test_quota oor perUnit pd u =
        (let raw = go_int oor
                     (math_Round
                        (fmul (math_Round
                                 (float64_of_int
                                    (wrap64 (PromptTokens u +
                                       go_int oor
                                         (math_Round (fmul (float64_of_int (CompletionTokens u))
                                                           (CompletionRatio pd)))))))
                              (ModelRatio pd)))
         in if ne_zero (ModelRatio pd) \<and> raw \<le> 0 then 1 else raw)) \<and>
   (\<not> UsePrice pd \<and> \<not> ne_zero (ModelRatio pd) \<longrightarrow> test_quota oor perUnit pd u = 0) \<and>
   (\<not> UsePrice pd \<and> ne_zero (ModelRatio pd) \<longrightarrow> 1 \<le> test_quota oor perUnit pd u) \<and>
   (UsePrice pd \<longrightarrow> test_quota oor perUnit pd u = go_int oor (fmul (ModelPrice pd) perUnit)) \<and>
   test_quota oor perUnit
     \<lparr>UsePrice = False, CompletionRatio = f64_2, ModelRatio = f64_half, ModelPrice = price\<rparr>
     \<lparr>PromptTokens = 100, CompletionTokens = 50, TotalTokens = tokens\<rparr> = 100"
proof (intro conjI impI)
  assume "\<not> UsePrice pd"
  then show "test_quota oor perUnit pd u =
        (let raw = go_int oor
                     (math_Round
                        (fmul (math_Round
                                 (float64_of_int
                                    (wrap64 (PromptTokens u +
                                       go_int oor
                                         (math_Round (fmul (float64_of_int (CompletionTokens u))
                                                           (CompletionRatio pd)))))))
                              (ModelRatio pd)))
         in if ne_zero (ModelRatio pd) \<and> raw \<le> 0 then 1 else raw)"
    by (simp add: test_quota_def math_Round_float64_of_int Let_def)
next
  assume "\<not> UsePrice pd \<and> \<not> ne_zero (ModelRatio pd)"
  then show "test_quota oor perUnit pd u = 0"
    by (simp add: test_quota_def Let_def fmul_zero_ratio go_int_zero)
next
  assume "\<not> UsePrice pd \<and> ne_zero (ModelRatio pd)"
  then show "1 \<le> test_quota oor perUnit pd u"
    by (simp add: test_quota_def Let_def)
next
  assume "UsePrice pd"
  then show "test_quota oor perUnit pd u = go_int oor (fmul (ModelPrice pd) perUnit)"
    by (simp add: test_quota_def)
next
  show "test_quota oor perUnit
     \<lparr>UsePrice = False, CompletionRatio = f64_2, ModelRatio = f64_half, ModelPrice = price\<rparr>
     \<lparr>PromptTokens = 100, CompletionTokens = 50, TotalTokens = tokens\<rparr> = 100"
    by (simp add: f64_eval)
qed

text \<open>
  The theorem at three inputs: five completion tokens at a completion ratio of 0.3 (the
  product is 1.5 in \<open>float64\<close> and rounds to 2), a model ratio of zero, and a flat price
  of 0.000001.
\<close>

theorem test_quota_float64_witness:
  "\<not> UsePrice \<lparr>UsePrice = False, CompletionRatio = f64_0_3, ModelRatio = f64_1,
               ModelPrice = f64_0\<rparr> \<and>
   ne_zero f64_1 \<and>
   test_quota amd64_out_of_range f64_500000
     \<lparr>UsePrice = False, CompletionRatio = f64_0_3, ModelRatio = f64_1, ModelPrice = f64_0\<rparr>
     \<lparr>PromptTokens = 0, CompletionTokens = 5, TotalTokens = 5\<rparr> = 2 \<and>
   \<not> ne_zero f64_0 \<and>
   test_quota amd64_out_of_range f64_500000
     \<lparr>UsePrice = False, CompletionRatio = f64_2, ModelRatio = f64_0, ModelPrice = f64_0\<rparr>
     \<lparr>PromptTokens = 100, CompletionTokens = 50, TotalTokens = 150\<rparr> = 0 \<and>
   UsePrice \<lparr>UsePrice = True, CompletionRatio = f64_1, ModelRatio = f64_1,
             ModelPrice = f64_0_000001\<rparr> \<and>
   test_quota amd64_out_of_range f64_500000
     \<lparr>UsePrice = True, CompletionRatio = f64_1, ModelRatio = f64_1,
      ModelPrice = f64_0_000001\<rparr>
     \<lparr>PromptTokens = 100, CompletionTokens = 50, TotalTokens = 150\<rparr> = 0"
proof -
  let ?pd1 = "\<lparr>UsePrice = False, CompletionRatio = f64_0_3, ModelRatio = f64_1,
               ModelPrice = f64_0\<rparr>"
  let ?u1 = "\<lparr>PromptTokens = 0, CompletionTokens = 5, TotalTokens = 5\<rparr>"
  let ?pd2 = "\<lparr>UsePrice = False, CompletionRatio = f64_2, ModelRatio = f64_0,
               ModelPrice = f64_0\<rparr>"
  let ?pd3 = "\<lparr>UsePrice = True, CompletionRatio = f64_1, ModelRatio = f64_1,
               ModelPrice = f64_0_000001\<rparr>"
  let ?u2 = "\<lparr>PromptTokens = 100, CompletionTokens = 50, TotalTokens = 150\<rparr>"
  have nz: "ne_zero f64_1" "\<not> ne_zero f64_0" by (simp_all add: f64_1_def f64_0_def)
  have raw1: "go_int amd64_out_of_range
                (math_Round
                   (fmul (math_Round
                            (float64_of_int
                               (wrap64 (0 + go_int amd64_out_of_range
                                  (math_Round (fmul (float64_of_int 5) f64_0_3))))))
                         f64_1)) = 2"
    by (simp add: f64_eval)
  have flat: "go_int amd64_out_of_range (fmul f64_0_000001 f64_500000) = 0"
    by (simp add: f64_eval)
  from test_quota_float64 [of ?pd1 amd64_out_of_range f64_500000 ?u1]
  have "\<not> UsePrice ?pd1 \<longrightarrow>
      test_quota amd64_out_of_range f64_500000 ?pd1 ?u1 =
        (let raw = go_int amd64_out_of_range
                     (math_Round
                        (fmul (math_Round
                                 (float64_of_int
                                    (wrap64 (PromptTokens ?u1 +
                                       go_int amd64_out_of_range
                                         (math_Round (fmul (float64_of_int (CompletionTokens ?u1))
                                                           (CompletionRatio ?pd1)))))))
                              (ModelRatio ?pd1)))
         in if ne_zero (ModelRatio ?pd1) \<and> raw \<le> 0 then 1 else raw)"
    by blast
  with raw1 nz have q1: "test_quota amd64_out_of_range f64_500000 ?pd1 ?u1 = 2"
    by (simp add: Let_def)
  from test_quota_float64 [of ?pd2 amd64_out_of_range f64_500000 ?u2]
  have "\<not> UsePrice ?pd2 \<and> \<not> ne_zero (ModelRatio ?pd2) \<longrightarrow>
          test_quota amd64_out_of_range f64_500000 ?pd2 ?u2 = 0"
    by blast
  with nz have q2: "test_quota amd64_out_of_range f64_500000 ?pd2 ?u2 = 0"
    by simp
  from test_quota_float64 [of ?pd3 amd64_out_of_range f64_500000 ?u2]
  have "UsePrice ?pd3 \<longrightarrow>
          test_quota amd64_out_of_range f64_500000 ?pd3 ?u2 =
            go_int amd64_out_of_range (fmul (ModelPrice ?pd3) f64_500000)"
    by blast
  with flat have q3: "test_quota amd64_out_of_range f64_500000 ?pd3 ?u2 = 0"
    by simp
  from nz q1 q2 q3 show ?thesis by simp
qed

end
